theory Spec2Isabelle
  imports Main "HOL-Library.Sublist" "HOL-Library.List_Lexorder" "HOL-Library.Char_ord"
    "HOL-Library.Multiset"
begin

section \<open>The architecture guard of scripts/makefile/arch\_guard.py\<close>

text \<open>
  A shallow embedding of the class \<open>ArchitectureGuard\<close> and of \<open>main\<close>. A leading
  underscore of a Python method name is dropped (\<open>_extract_imports\<close> is
  \<open>extract_imports\<close>). Text is a \<open>string\<close> whose characters are the code points
  below 256; what the program prints is a list of \<open>output_line\<close> values, one
  constructor for each \<open>print\<close> call of the source.
\<close>

subsection \<open>Characters and strings\<close>

text \<open>\<open>str.isspace\<close>, which is also the class \<open>\s\<close> of \<open>re\<close>, on code points below 256.\<close>

definition is_space :: "char \<Rightarrow> bool" where
  "is_space c =
     (let n = (of_char c :: nat)
      in (9 \<le> n \<and> n \<le> 13) \<or> (28 \<le> n \<and> n \<le> 32) \<or> n = 133 \<or> n = 160)"

text \<open>The class \<open>\w\<close> of \<open>re\<close> (alphanumeric or underscore) on code points below 256.\<close>

definition is_word :: "char \<Rightarrow> bool" where
  "is_word c =
     (let n = (of_char c :: nat)
      in (48 \<le> n \<and> n \<le> 57) \<or> (65 \<le> n \<and> n \<le> 90) \<or> n = 95 \<or> (97 \<le> n \<and> n \<le> 122)
         \<or> n = 170 \<or> n = 178 \<or> n = 179 \<or> n = 181 \<or> n = 185 \<or> n = 186
         \<or> (188 \<le> n \<and> n \<le> 190) \<or> (192 \<le> n \<and> n \<le> 214) \<or> (216 \<le> n \<and> n \<le> 246)
         \<or> (248 \<le> n \<and> n \<le> 255))"

definition dquote :: char where
  "dquote = CHR 0x22"

definition slash :: char where
  "slash = CHR ''/''"

text \<open>\<open>s.strip()\<close>\<close>

definition strip :: "string \<Rightarrow> string" where
  "strip s = rev (dropWhile is_space (rev (dropWhile is_space s)))"

text \<open>\<open>s.endswith(t)\<close>\<close>

definition endswith :: "string \<Rightarrow> string \<Rightarrow> bool" where
  "endswith s t = suffix t s"

text \<open>\<open>'/'.join(parts)\<close>\<close>

fun join_slash :: "string list \<Rightarrow> string" where
  "join_slash [] = []"
| "join_slash [p] = p"
| "join_slash (p # q # ps) = p @ slash # join_slash (q # ps)"

text \<open>\<open>str(path)\<close> of a POSIX path given by its \<open>parts\<close>; an absolute path has the
  first part \<open>/\<close>.\<close>

definition path_str :: "string list \<Rightarrow> string" where
  "path_str parts =
     (case parts of
        [] \<Rightarrow> ''.''
      | p # ps \<Rightarrow> if p = ''/'' then slash # join_slash ps else join_slash (p # ps))"

subsection \<open>The regular expressions of the import extractor\<close>

text \<open>The tail \<open>"([^"]+)"\s*$\<close> of both patterns: the text between the quotes.\<close>

definition quoted_path :: "string \<Rightarrow> string option" where
  "quoted_path s =
     (case s of
        [] \<Rightarrow> None
      | c # r \<Rightarrow>
          if c \<noteq> dquote then None
          else
            (let body = takeWhile (\<lambda>x. x \<noteq> dquote) r;
                 rest = dropWhile (\<lambda>x. x \<noteq> dquote) r
             in if body \<noteq> [] \<and> rest \<noteq> [] \<and> list_all is_space (tl rest)
                then Some body else None))"

text \<open>\<open>(?:\w+\s+)?"([^"]+)"\s*$\<close>: the alias is tried first, then the pattern
  without it.\<close>

definition alias_quoted :: "string \<Rightarrow> string option" where
  "alias_quoted s =
     (let r1 = dropWhile is_word s
      in if takeWhile is_word s \<noteq> [] \<and> takeWhile is_space r1 \<noteq> []
         then (case quoted_path (dropWhile is_space r1) of
                 Some p \<Rightarrow> Some p
               | None \<Rightarrow> quoted_path s)
         else quoted_path s)"

text \<open>\<open>re.match(r'^\s*(?:\w+\s+)?"([^"]+)"\s*$', stripped)\<close>, the pattern of a line
  inside an import block.\<close>

definition match_block_line :: "string \<Rightarrow> string option" where
  "match_block_line s = alias_quoted (dropWhile is_space s)"

text \<open>\<open>re.match(r'^\s*import\s+(?:\w+\s+)?"([^"]+)"\s*$', stripped)\<close>, the pattern
  of a single-line import.\<close>

definition match_import_line :: "string \<Rightarrow> string option" where
  "match_import_line s =
     (let s1 = dropWhile is_space s
      in if prefix ''import'' s1
         then (let r = drop 6 s1
               in if takeWhile is_space r \<noteq> [] then alias_quoted (dropWhile is_space r)
                  else None)
         else None)"

text \<open>The loop of \<open>_extract_imports\<close> over the enumerated lines: the flag is
  \<open>in_import_block\<close>, the number is \<open>line_num\<close>.\<close>

fun extract_lines :: "bool \<Rightarrow> nat \<Rightarrow> string list \<Rightarrow> (nat \<times> string) list" where
  "extract_lines in_import_block line_num [] = []"
| "extract_lines in_import_block line_num (line # rest) =
     (let stripped = strip line
      in if prefix ''import ('' stripped then extract_lines True (Suc line_num) rest
         else if in_import_block then
           (if stripped = '')'' then extract_lines False (Suc line_num) rest
            else (case match_block_line stripped of
                    Some p \<Rightarrow> (line_num, p) # extract_lines True (Suc line_num) rest
                  | None \<Rightarrow> extract_lines True (Suc line_num) rest))
         else (case match_import_line stripped of
                 Some p \<Rightarrow> (line_num, p) # extract_lines False (Suc line_num) rest
               | None \<Rightarrow> extract_lines False (Suc line_num) rest))"

subsection \<open>Data\<close>

record ArchitectureViolation =
  file_path :: string
  line_number :: nat
  violation_type :: string
  details :: string

text \<open>What reading a text file gives: the lines the iteration delivered, and whether
  the read ended with an exception (a failing \<open>open\<close> delivers no line).\<close>

record read_result =
  lines_read :: "string list"
  read_failed :: bool

text \<open>A per-layer \<open>go.mod\<close> that exists: unreadable, or its content.\<close>

datatype manifest = Unreadable | Content string

text \<open>
  The world the guard reads. Paths are lists of path components; a source file is named
  by its components below the project root. \<open>root_gomod\<close> is what reading the
  \<open>go.mod\<close> of the project root gives, \<open>None\<close> when the file does not exist; its
  lines keep their line ends. \<open>layer_order\<close> is the order in which Python iterates
  over the set \<open>layers_present\<close>.
\<close>

record env =
  root_parts :: "string list"
  root_exists :: bool
  layer_is_dir :: "string \<Rightarrow> bool"
  root_gomod :: "read_result option"
  layer_gomod :: "string \<Rightarrow> manifest option"
  rglob_go :: "string \<Rightarrow> string list list"
  read_text :: "string list \<Rightarrow> read_result"
  layer_order :: "string list"

datatype output_line =
    Rule70
  | Blank
  | Title
  | Project_root string
  | Error_project_not_found string
  | No_layers_exiting
  | Warning_root_missing string
  | Warning_root_gomod
  | Layer_detection
  | Layer_present string
  | Layer_not_present string
  | Warning_could_not_read string
  | Validating_gomod
  | Gomod_missing string
  | Gomod_read_error string
  | Gomod_forbidden string "string list"
  | Gomod_dependencies string "string list"
  | No_layers_skipping
  | Validating_layers "string list"
  | Step1
  | Step2
  | Scanning nat
  | Final_results
  | Gomod_valid
  | Gomod_invalid
  | Source_valid
  | Source_invalid nat
  | Passed
  | Failed
  | Violations_count nat
  | Group_header string nat
  | Location string nat
  | Detail string

text \<open>The object: the fields of \<open>ArchitectureGuard\<close>, and the lines printed so far.\<close>

record guard =
  project_root :: "string list"
  violations :: "ArchitectureViolation list"
  layers_present :: "string set"
  gomod_config_valid :: bool
  module_path :: string
  printed :: "output_line list"

datatype error = KeyError string

definition LAYER_RULES :: "string \<rightharpoonup> string set" where
  "LAYER_RULES =
     [''domain'' \<mapsto> {},
      ''application'' \<mapsto> {''domain''},
      ''infrastructure'' \<mapsto> {''application'', ''domain''},
      ''presentation'' \<mapsto> {''application''},
      ''bootstrap'' \<mapsto> {''domain'', ''application'', ''infrastructure'', ''presentation''}]"

text \<open>\<open>sorted(self.LAYER_RULES.keys())\<close>\<close>

definition sorted_layer_names :: "string list" where
  "sorted_layer_names = sorted_list_of_set (dom LAYER_RULES)"

definition FORBIDDEN_TEST_IMPORTS :: "string list" where
  "FORBIDDEN_TEST_IMPORTS = [''testing'', ''testify'', ''assert'', ''require'', ''mock'']"

definition FORBIDDEN_DEPENDENCY :: string where
  "FORBIDDEN_DEPENDENCY = ''bootstrap''"

definition print_line :: "output_line \<Rightarrow> guard \<Rightarrow> guard" where
  "print_line l g = g\<lparr>printed := printed g @ [l]\<rparr>"

subsection \<open>Construction\<close>

fun detect_loop :: "env \<Rightarrow> string list \<Rightarrow> string set \<times> output_line list
    \<Rightarrow> string set \<times> output_line list" where
  "detect_loop e [] acc = acc"
| "detect_loop e (layer # rest) (layers, out) =
     (if layer_is_dir e layer
      then detect_loop e rest (insert layer layers, out @ [Layer_present layer])
      else detect_loop e rest (layers, out @ [Layer_not_present layer]))"

definition detect_layers :: "env \<Rightarrow> string set \<times> output_line list" where
  "detect_layers e =
     (if \<not> root_exists e then ({}, [Warning_root_missing (path_str (root_parts e))])
      else detect_loop e sorted_layer_names ({}, [Layer_detection]))"

text \<open>\<open>re.match(r'^\s*module\s+(.+)\s*$', line)\<close>, with \<open>match.group(1).strip()\<close>
  as the result. The dot matches every character but the line feed. When nothing but
  white space follows the keyword, the group can only be taken from that white space,
  and its stripped text is empty.\<close>

definition match_module_line :: "string \<Rightarrow> string option" where
  "match_module_line line =
     (let s1 = dropWhile is_space line
      in if \<not> prefix ''module'' s1 then None
         else
           (let r = drop 6 s1;
                rest = dropWhile is_space r
            in if takeWhile is_space r = [] then None
               else if rest = []
               then (if list_ex (\<lambda>c. c \<noteq> CHR 0x0A) (tl r) then Some [] else None)
               else if list_all is_space (dropWhile (\<lambda>c. c \<noteq> CHR 0x0A) rest)
               then Some (strip (takeWhile (\<lambda>c. c \<noteq> CHR 0x0A) rest))
               else None))"

text \<open>The loop of \<open>_get_module_path\<close>: the first line that matches decides.\<close>

fun first_module_line :: "string list \<Rightarrow> string option" where
  "first_module_line [] = None"
| "first_module_line (line # rest) =
     (case match_module_line line of
        Some m \<Rightarrow> Some m
      | None \<Rightarrow> first_module_line rest)"

definition default_module_path :: string where
  "default_module_path = ''github.com/abitofhelp/hybrid_app_go''"

text \<open>\<open>_get_module_path\<close>: the module path, and the warning when the read ended with
  an exception before a line matched.\<close>

definition get_module_path :: "env \<Rightarrow> string \<times> output_line list" where
  "get_module_path e =
     (case root_gomod e of
        None \<Rightarrow> (default_module_path, [])
      | Some r \<Rightarrow>
          (case first_module_line (lines_read r) of
             Some m \<Rightarrow> (m, [])
           | None \<Rightarrow>
               if read_failed r then (default_module_path, [Warning_root_gomod])
               else (default_module_path, [])))"

text \<open>\<open>ArchitectureGuard(project_root)\<close>: the layers are detected first, the module
  path is read last.\<close>

definition init_guard :: "env \<Rightarrow> guard" where
  "init_guard e =
     (let (layers, out) = detect_layers e;
          (path, warning) = get_module_path e
      in \<lparr>project_root = root_parts e, violations = [], layers_present = layers,
          gomod_config_valid = False, module_path = path, printed = out @ warning\<rparr>)"

subsection \<open>Classification\<close>

definition extract_imports :: "env \<Rightarrow> string list \<Rightarrow> guard \<Rightarrow> (nat \<times> string) list \<times> guard" where
  "extract_imports e rel g =
     (let r = read_text e rel;
          imports = extract_lines False 1 (lines_read r)
      in if read_failed r
         then (imports, print_line (Warning_could_not_read (path_str (project_root g @ rel))) g)
         else (imports, g))"

definition get_layer_from_import :: "guard \<Rightarrow> string \<Rightarrow> string option" where
  "get_layer_from_import g import_path =
     (if \<not> prefix (module_path g) import_path then None
      else
        (let relative = dropWhile (\<lambda>c. c = slash) (drop (length (module_path g)) import_path);
             part0 = takeWhile (\<lambda>c. c \<noteq> slash) relative
         in if part0 \<in> dom LAYER_RULES then Some part0 else None))"

text \<open>\<open>_get_file_layer\<close> of the file with the components \<open>rel\<close> below the project
  root: \<open>relative_to\<close> succeeds and gives \<open>rel\<close>.\<close>

definition get_file_layer :: "string list \<Rightarrow> string option" where
  "get_file_layer rel =
     (case rel of
        [] \<Rightarrow> None
      | part0 # _ \<Rightarrow> if part0 \<in> dom LAYER_RULES then Some part0 else None)"

subsection \<open>The manifests\<close>

text \<open>One match of \<open>require\s+([^\s]+)\<close> at the start of \<open>s\<close>: the group and the
  text after the match.\<close>

definition match_require :: "string \<Rightarrow> (string \<times> string) option" where
  "match_require s =
     (if prefix ''require'' s
      then (let r = drop 7 s;
                r2 = dropWhile is_space r;
                tok = takeWhile (\<lambda>c. \<not> is_space c) r2
            in if takeWhile is_space r \<noteq> [] \<and> tok \<noteq> []
               then Some (tok, dropWhile (\<lambda>c. \<not> is_space c) r2) else None)
      else None)"

lemma match_require_shorter:
  "match_require s = Some (tok, rest) \<Longrightarrow> length rest < length s"
proof -
  assume m: "match_require s = Some (tok, rest)"
  then have p: "prefix ''require'' s"
    by (simp add: match_require_def split: if_splits)
  from m p have "rest = dropWhile (\<lambda>c. \<not> is_space c) (dropWhile is_space (drop 7 s))"
    by (simp add: match_require_def Let_def split: if_splits)
  moreover have "length (dropWhile (\<lambda>c. \<not> is_space c) (dropWhile is_space (drop 7 s)))
      \<le> length (drop 7 s)"
    by (rule order_trans [OF length_dropWhile_le length_dropWhile_le])
  ultimately have "length rest \<le> length (drop 7 s)"
    by simp
  moreover from p have "7 \<le> length s"
    using prefix_length_le by fastforce
  ultimately show ?thesis by simp
qed

text \<open>\<open>re.finditer(r'require\s+([^\s]+)', content)\<close>: the groups of the successive
  matches, the search going on after each match.\<close>

function finditer_require :: "string \<Rightarrow> string list" where
  "finditer_require [] = []"
| "finditer_require (c # cs) =
     (case match_require (c # cs) of
        Some (tok, rest) \<Rightarrow> tok # finditer_require rest
      | None \<Rightarrow> finditer_require cs)"
  by pat_completeness auto
termination
  by (relation "measure length") (auto dest: match_require_shorter)

text \<open>The set \<open>layer_deps\<close> that \<open>_validate_gomod_config\<close> collects from a content.\<close>

definition declared_layers :: "guard \<Rightarrow> string \<Rightarrow> string set" where
  "declared_layers g content =
     set (List.map_filter (get_layer_from_import g) (finditer_require content))"

fun gomod_loop :: "env \<Rightarrow> string list \<Rightarrow> bool \<Rightarrow> guard \<Rightarrow> error + bool \<times> guard" where
  "gomod_loop e [] valid g = Inr (valid, g)"
| "gomod_loop e (layer # rest) valid g =
     (case layer_gomod e layer of
        None \<Rightarrow> gomod_loop e rest valid (print_line (Gomod_missing layer) g)
      | Some Unreadable \<Rightarrow> gomod_loop e rest False (print_line (Gomod_read_error layer) g)
      | Some (Content content) \<Rightarrow>
          (let layer_deps = declared_layers g content
           in case LAYER_RULES layer of
                None \<Rightarrow> Inl (KeyError layer)
              | Some allowed_deps \<Rightarrow>
                  (let forbidden = layer_deps - allowed_deps
                   in if forbidden \<noteq> {}
                      then gomod_loop e rest False
                             (print_line (Gomod_forbidden layer (sorted_list_of_set forbidden)) g)
                      else gomod_loop e rest valid
                             (print_line (Gomod_dependencies layer (sorted_list_of_set layer_deps)) g))))"

definition validate_gomod_config :: "env \<Rightarrow> guard \<Rightarrow> error + bool \<times> guard" where
  "validate_gomod_config e g =
     gomod_loop e (sorted_list_of_set (layers_present g)) True
       (print_line Validating_gomod (print_line Blank g))"

subsection \<open>The source files\<close>

definition add_violation :: "ArchitectureViolation \<Rightarrow> guard \<Rightarrow> guard" where
  "add_violation v g = g\<lparr>violations := violations g @ [v]\<rparr>"

text \<open>\<open>path.name\<close>\<close>

definition path_name :: "string list \<Rightarrow> string" where
  "path_name parts = (if parts = [] \<or> parts = [''/''] then [] else last parts)"

text \<open>The body of the loop of \<open>_validate_no_test_imports\<close>: the violation that one
  import record appends, if any.\<close>

definition test_import_rule :: "string \<Rightarrow> nat \<Rightarrow> string \<Rightarrow> ArchitectureViolation option" where
  "test_import_rule fp line_num import_path =
     (if import_path = ''testing''
      then Some \<lparr>file_path = fp, line_number = line_num,
                 violation_type = ''TEST_CODE_IN_PRODUCTION'',
                 details = ''Production code cannot import testing package: '' @ import_path\<rparr>
      else None)"

fun test_import_loop :: "string \<Rightarrow> (nat \<times> string) list \<Rightarrow> guard \<Rightarrow> guard" where
  "test_import_loop fp [] g = g"
| "test_import_loop fp ((line_num, import_path) # rest) g =
     (case test_import_rule fp line_num import_path of
        Some v \<Rightarrow> test_import_loop fp rest (add_violation v g)
      | None \<Rightarrow> test_import_loop fp rest g)"

definition validate_no_test_imports :: "env \<Rightarrow> string list \<Rightarrow> guard \<Rightarrow> guard" where
  "validate_no_test_imports e rel g =
     (if endswith (path_name (project_root g @ rel)) ''_test.go'' then g
      else (let (imports, g1) = extract_imports e rel g
            in test_import_loop (path_str (project_root g @ rel)) imports g1))"

text \<open>The arrow U+2192 of the remediation hint is beyond the characters of this model;
  it is written as the three bytes of its UTF-8 form.\<close>

definition remediation_hint :: string where
  "remediation_hint =
     [CHR 0x0A] @ ''      '' @ [CHR 0xE2, CHR 0x86, CHR 0x92]
       @ '' Use application/error re-exports instead (e.g., apperr.Result[T])''"

text \<open>\<open>f"Layer '{a}' cannot depend on '{b}' (import: {p})"\<close>\<close>

definition cannot_depend :: "string \<Rightarrow> string \<Rightarrow> string \<Rightarrow> string" where
  "cannot_depend a b p =
     ''Layer '' @ [CHR 0x27] @ a @ [CHR 0x27] @ '' cannot depend on '' @ [CHR 0x27] @ b
       @ [CHR 0x27] @ '' (import: '' @ p @ '')''"

text \<open>The body of the loop of \<open>validate_file\<close>: the violation that one import
  record appends, if any; \<open>None\<close> is a \<open>continue\<close> with nothing appended, or the end
  of the body.\<close>

definition import_rule ::
  "guard \<Rightarrow> string \<Rightarrow> string \<Rightarrow> string set \<Rightarrow> nat \<Rightarrow> string \<Rightarrow> ArchitectureViolation option" where
  "import_rule g fp current_layer allowed_deps line_num import_path =
     (case get_layer_from_import g import_path of
        None \<Rightarrow> None
      | Some dependency_layer \<Rightarrow>
          if dependency_layer \<notin> layers_present g then None
          else if dependency_layer = current_layer then None
          else if dependency_layer = FORBIDDEN_DEPENDENCY
          then Some \<lparr>file_path = fp, line_number = line_num,
                     violation_type = ''FORBIDDEN_BOOTSTRAP_DEPENDENCY'',
                     details = cannot_depend current_layer FORBIDDEN_DEPENDENCY import_path\<rparr>
          else if current_layer = ''presentation'' \<and> dependency_layer = ''infrastructure''
          then Some \<lparr>file_path = fp, line_number = line_num,
                     violation_type = ''FORBIDDEN_LATERAL_DEPENDENCY'',
                     details = ''Presentation cannot depend on Infrastructure (import: ''
                       @ import_path @ '')''\<rparr>
          else if current_layer = ''infrastructure'' \<and> dependency_layer = ''presentation''
          then Some \<lparr>file_path = fp, line_number = line_num,
                     violation_type = ''FORBIDDEN_LATERAL_DEPENDENCY'',
                     details = ''Infrastructure cannot depend on Presentation (import: ''
                       @ import_path @ '')''\<rparr>
          else if current_layer = ''presentation'' \<and> dependency_layer = ''domain''
          then Some \<lparr>file_path = fp, line_number = line_num,
                     violation_type = ''PRESENTATION_IMPORTS_DOMAIN'',
                     details = ''Presentation MUST NOT import Domain directly (import: ''
                       @ import_path @ '')'' @ remediation_hint\<rparr>
          else if dependency_layer \<notin> allowed_deps
          then Some \<lparr>file_path = fp, line_number = line_num,
                     violation_type = ''ILLEGAL_LAYER_DEPENDENCY'',
                     details = cannot_depend current_layer dependency_layer import_path\<rparr>
          else None)"

fun import_loop :: "string \<Rightarrow> string \<Rightarrow> string set \<Rightarrow> (nat \<times> string) list \<Rightarrow> guard \<Rightarrow> guard" where
  "import_loop fp current_layer allowed_deps [] g = g"
| "import_loop fp current_layer allowed_deps ((line_num, import_path) # rest) g =
     (case import_rule g fp current_layer allowed_deps line_num import_path of
        Some v \<Rightarrow> import_loop fp current_layer allowed_deps rest (add_violation v g)
      | None \<Rightarrow> import_loop fp current_layer allowed_deps rest g)"

definition validate_file :: "env \<Rightarrow> string list \<Rightarrow> guard \<Rightarrow> error + guard" where
  "validate_file e rel g =
     (let g1 = validate_no_test_imports e rel g
      in case get_file_layer rel of
           None \<Rightarrow> Inr g1
         | Some current_layer \<Rightarrow>
             if current_layer \<notin> layers_present g1 then Inr g1
             else (case LAYER_RULES current_layer of
                     None \<Rightarrow> Inl (KeyError current_layer)
                   | Some allowed_deps \<Rightarrow>
                       (let (imports, g2) = extract_imports e rel g1
                        in Inr (import_loop (path_str (project_root g @ rel)) current_layer
                                  allowed_deps imports g2))))"

subsection \<open>The whole run\<close>

fun validate_files :: "env \<Rightarrow> string list list \<Rightarrow> guard \<Rightarrow> error + guard" where
  "validate_files e [] g = Inr g"
| "validate_files e (go_file # rest) g =
     (case validate_file e go_file g of
        Inl err \<Rightarrow> Inl err
      | Inr g1 \<Rightarrow> validate_files e rest g1)"

text \<open>The list \<open>go_files\<close> that \<open>validate_all\<close> collects: for each present layer, in
  the iteration order of the set, the files found below the layer directory, without
  those that have a path component \<open>vendor\<close>.\<close>

definition collect_go_files :: "env \<Rightarrow> guard \<Rightarrow> string list list" where
  "collect_go_files e g =
     concat (map (\<lambda>layer.
                filter (\<lambda>rel. ''vendor'' \<notin> set (project_root g @ rel))
                  (map (\<lambda>sub. layer # sub) (rglob_go e layer)))
             (filter (\<lambda>layer. layer \<in> layers_present g) (layer_order e)))"

definition validate_all :: "env \<Rightarrow> guard \<Rightarrow> error + bool \<times> guard" where
  "validate_all e g =
     (if layers_present g = {} then Inr (True, print_line No_layers_skipping g)
      else
        (let g1 = print_line Blank
                    (print_line (Validating_layers (sorted_list_of_set (layers_present g)))
                       (print_line Blank g));
             g2 = print_line Rule70 (print_line Step1 (print_line Rule70 g1))
         in case validate_gomod_config e g2 of
              Inl err \<Rightarrow> Inl err
            | Inr (valid, g3) \<Rightarrow>
                (let g4 = print_line Blank (g3\<lparr>gomod_config_valid := valid\<rparr>);
                     g5 = print_line Rule70 (print_line Step2 (print_line Rule70 g4));
                     go_files = collect_go_files e g5;
                     g6 = print_line Blank (print_line (Scanning (length go_files)) g5)
                 in case validate_files e go_files g6 of
                      Inl err \<Rightarrow> Inl err
                    | Inr g7 \<Rightarrow>
                        Inr (gomod_config_valid g7 \<and> length (violations g7) = 0, g7))))"

text \<open>\<open>by_type.setdefault(k, []).append(v)\<close> on a dictionary kept in insertion order.\<close>

fun setdefault_append :: "(string \<times> 'a list) list \<Rightarrow> string \<Rightarrow> 'a \<Rightarrow> (string \<times> 'a list) list" where
  "setdefault_append [] k v = [(k, [v])]"
| "setdefault_append ((k', vs) # rest) k v =
     (if k' = k then (k', vs @ [v]) # rest else (k', vs) # setdefault_append rest k v)"

definition by_type :: "ArchitectureViolation list \<Rightarrow> (string \<times> ArchitectureViolation list) list" where
  "by_type vs = foldl (\<lambda>d v. setdefault_append d (violation_type v) v) [] vs"

text \<open>\<open>sorted(by_type.items())\<close>: the keys are distinct, so the order of the pairs is
  the order of the keys.\<close>

definition sorted_items :: "(string \<times> 'a list) list \<Rightarrow> (string \<times> 'a list) list" where
  "sorted_items d = sort_key fst d"

definition group_lines :: "string \<times> ArchitectureViolation list \<Rightarrow> output_line list" where
  "group_lines kv =
     Group_header (fst kv) (length (snd kv))
       # concat (map (\<lambda>v. [Location (file_path v) (line_number v), Detail (details v)]) (snd kv))
       @ [Blank]"

definition report_lines :: "guard \<Rightarrow> output_line list" where
  "report_lines g =
     [Blank, Rule70, Final_results, Rule70]
     @ [if gomod_config_valid g then Gomod_valid else Gomod_invalid]
     @ [if violations g = [] then Source_valid else Source_invalid (length (violations g))]
     @ (if gomod_config_valid g \<and> violations g = [] then [Blank, Passed]
        else [Blank, Failed]
          @ (if violations g \<noteq> [] then [Blank, Violations_count (length (violations g)), Blank]
             else [])
          @ concat (map group_lines (sorted_items (by_type (violations g)))))"

definition report_violations :: "guard \<Rightarrow> guard" where
  "report_violations g = g\<lparr>printed := printed g @ report_lines g\<rparr>"

text \<open>\<open>main\<close>: the exit code and the lines printed.\<close>

definition main :: "env \<Rightarrow> error + int \<times> output_line list" where
  "main e =
     (let out = [Rule70, Title, Rule70, Project_root (path_str (root_parts e)), Blank]
      in if \<not> root_exists e
         then Inr (2, out @ [Error_project_not_found (path_str (root_parts e))])
         else
           (let g0 = init_guard e;
                g = g0\<lparr>printed := out @ printed g0\<rparr>
            in if layers_present g = {} then Inr (2, printed g @ [No_layers_exiting])
               else (case validate_all e g of
                       Inl err \<Rightarrow> Inl err
                     | Inr (is_valid, g1) \<Rightarrow>
                         Inr (if is_valid then 0 else 1, printed (report_violations g1)))))"

subsection \<open>Derived notions and scenarios\<close>

text \<open>The violations that \<open>validate_file\<close> appends for one file.\<close>

definition appended :: "env \<Rightarrow> string list \<Rightarrow> guard \<Rightarrow> ArchitectureViolation list" where
  "appended e rel g =
     (case validate_file e rel g of
        Inl err \<Rightarrow> []
      | Inr g1 \<Rightarrow> drop (length (violations g)) (violations g1))"

text \<open>The part of them that comes from the test rule, and the part from the layer
  rules.\<close>

definition test_part :: "env \<Rightarrow> string list \<Rightarrow> guard \<Rightarrow> ArchitectureViolation list" where
  "test_part e rel g =
     (if endswith (path_name (project_root g @ rel)) ''_test.go'' then []
      else List.map_filter (\<lambda>(n, p). test_import_rule (path_str (project_root g @ rel)) n p)
             (fst (extract_imports e rel g)))"

definition layer_part :: "env \<Rightarrow> string list \<Rightarrow> guard \<Rightarrow> ArchitectureViolation list" where
  "layer_part e rel g =
     (case get_file_layer rel of
        None \<Rightarrow> []
      | Some cl \<Rightarrow>
          if cl \<notin> layers_present g then []
          else List.map_filter
                 (\<lambda>(n, p). import_rule g (path_str (project_root g @ rel)) cl (the (LAYER_RULES cl)) n p)
                 (fst (extract_imports e rel g)))"

text \<open>A project with all five layers and the module path \<open>example.com/app\<close>, with
  a few source files.\<close>

definition scenario_guard :: guard where
  "scenario_guard =
     \<lparr>project_root = [''/'', ''srv'', ''app''], violations = [],
      layers_present = {''domain'', ''application'', ''infrastructure'', ''presentation'', ''bootstrap''},
      gomod_config_valid = False, module_path = ''example.com/app'', printed = []\<rparr>"

definition scenario_env :: env where
  "scenario_env =
     \<lparr>root_parts = [''/'', ''srv'', ''app''], root_exists = True,
      layer_is_dir = (\<lambda>l. True),
      root_gomod = Some \<lparr>lines_read = [''module example.com/app'' @ [CHR 0x0A]],
                          read_failed = False\<rparr>,
      layer_gomod = (\<lambda>l.
        if l = ''application''
        then Some (Content (''module example.com/app/application'' @ [CHR 0x0A, CHR 0x0A]
                     @ ''require example.com/app/domain v0.0.0'' @ [CHR 0x0A]))
        else None),
      rglob_go = (\<lambda>l.
        if l = ''presentation'' then [[''handler.go'']]
        else if l = ''infrastructure'' then [[''db.go'']]
        else if l = ''application'' then [[''service.go''], [''service_test.go'']]
        else []),
      read_text = (\<lambda>rel.
        if rel = [''presentation'', ''handler.go'']
        then \<lparr>lines_read = [''package handler'', ''import \"example.com/app/domain/entity\"''],
               read_failed = False\<rparr>
        else if rel = [''infrastructure'', ''db.go'']
        then \<lparr>lines_read = [''package db'', ''import ('',
                 ''  \"example.com/app/bootstrap/wire\"'', '')''],
               read_failed = False\<rparr>
        else if rel = [''application'', ''service.go'']
        then \<lparr>lines_read = [''package service'', ''import \"testing\"'',
                 ''import port \"example.com/app/application/port\"'',
                 ''import \"testing/quick\"''],
               read_failed = False\<rparr>
        else if rel = [''application'', ''service_test.go'']
        then \<lparr>lines_read = [''package service'', ''import \"testing\"''],
               read_failed = False\<rparr>
        else \<lparr>lines_read = [], read_failed = True\<rparr>),
      layer_order = sorted_layer_names\<rparr>"

text \<open>The scenario with one more file, \<open>domain/big.go\<close>, whose read fails after two
  lines have been delivered.\<close>

definition truncated_env :: env where
  "truncated_env =
     scenario_env\<lparr>read_text := (\<lambda>rel.
        if rel = [''domain'', ''big.go'']
        then \<lparr>lines_read = [''package big'', ''import \"testing\"''], read_failed = True\<rparr>
        else read_text scenario_env rel)\<rparr>"

text \<open>The allowed set of a layer, empty for a name that is not a layer.\<close>

definition allowed_dependencies :: "string \<Rightarrow> string set" where
  "allowed_dependencies layer = (case LAYER_RULES layer of Some al \<Rightarrow> al | None \<Rightarrow> {})"

text \<open>The set \<open>layer_deps\<close> of \<open>_validate_gomod_config\<close> for one layer: empty when the
  layer has no \<open>go.mod\<close>, and also when reading it fails.\<close>

definition declared_of :: "env \<Rightarrow> guard \<Rightarrow> string \<Rightarrow> string set" where
  "declared_of e g layer =
     (case layer_gomod e layer of
        Some (Content content) \<Rightarrow> declared_layers g content
      | _ \<Rightarrow> {})"

text \<open>What the loop of \<open>_validate_gomod_config\<close> decides for one layer: a missing
  \<open>go.mod\<close> passes, an unreadable one fails, a readable one passes when no declared
  layer is outside the allowed set.\<close>

definition manifest_ok :: "env \<Rightarrow> guard \<Rightarrow> string \<Rightarrow> bool" where
  "manifest_ok e g layer =
     (case layer_gomod e layer of
        None \<Rightarrow> True
      | Some Unreadable \<Rightarrow> False
      | Some (Content content) \<Rightarrow> declared_layers g content - allowed_dependencies layer = {})"

text \<open>A project whose only layer is domain, with a \<open>go.mod\<close> that cannot be read.\<close>

definition unreadable_env :: env where
  "unreadable_env =
     scenario_env\<lparr>layer_gomod := (\<lambda>l. if l = ''domain'' then Some Unreadable else None)\<rparr>"

definition domain_guard :: guard where
  "domain_guard = scenario_guard\<lparr>layers_present := {''domain''}\<rparr>"

text \<open>A project root without any layer directory.\<close>

definition empty_env :: env where
  "empty_env = scenario_env\<lparr>layer_is_dir := (\<lambda>l. False)\<rparr>"



text \<open>The scenario with one file of the application layer only, a production file with
  three imports of \<open>testing\<close> that the patterns of the extractor do not match.\<close>

definition dot_testing_env :: env where
  "dot_testing_env =
     scenario_env\<lparr>rglob_go := (\<lambda>l. if l = ''application'' then [[''helper.go'']] else []),
       read_text := (\<lambda>rel.
        if rel = [''application'', ''helper.go'']
        then \<lparr>lines_read = [''package helper'', ''import . \"testing\"'',
                 ''import t \"testing\" // helpers'', ''import ('',
                 ''  \"testing\" // std'', '')''],
               read_failed = False\<rparr>
        else read_text scenario_env rel)\<rparr>"

section \<open>Properties\<close>

lemma dom_LAYER_RULES:
  "dom LAYER_RULES = {''domain'', ''application'', ''infrastructure'', ''presentation'', ''bootstrap''}"
  by (auto simp: LAYER_RULES_def)

lemma finite_dom_LAYER_RULES: "finite (dom LAYER_RULES)"
  by (simp add: dom_LAYER_RULES)

lemma sorted_layer_names_eq:
  "sorted_layer_names = [''application'', ''bootstrap'', ''domain'', ''infrastructure'', ''presentation'']"
  by (simp add: sorted_layer_names_def dom_LAYER_RULES)

lemma get_layer_from_import_key:
  "get_layer_from_import g p = Some l \<Longrightarrow> l \<in> dom LAYER_RULES"
  by (auto simp: get_layer_from_import_def Let_def split: if_splits)

lemma get_layer_from_import_not_testing:
  "get_layer_from_import g ''testing'' = None"
proof (cases "prefix (module_path g) ''testing''")
  case False
  then show ?thesis by (simp add: get_layer_from_import_def)
next
  case True
  then have "module_path g \<in> set (prefixes ''testing'')"
    by (simp only: in_set_prefixes)
  then show ?thesis
    by (auto simp: get_layer_from_import_def Let_def slash_def dom_LAYER_RULES)
qed

lemma extract_lines_ge: "(n, p) \<in> set (extract_lines b k ls) \<Longrightarrow> k \<le> n"
  by (induction ls arbitrary: b k) (fastforce simp: Let_def split: if_splits option.splits)+

lemma extract_lines_distinct: "distinct (map fst (extract_lines b k ls))"
proof (induction ls arbitrary: b k)
  case Nil
  then show ?case by simp
next
  case (Cons l ls)
  have "\<And>b p. (k, p) \<notin> set (extract_lines b (Suc k) ls)"
    using extract_lines_ge by fastforce
  then have "\<And>b. k \<notin> fst ` set (extract_lines b (Suc k) ls)"
    by force
  with Cons show ?case
    by (auto simp: Let_def split: option.splits)
qed

lemma get_layer_from_import_frame:
  "module_path g1 = module_path g \<Longrightarrow> get_layer_from_import g1 p = get_layer_from_import g p"
  by (simp add: get_layer_from_import_def)

lemma import_rule_frame:
  assumes "layers_present g1 = layers_present g" and "module_path g1 = module_path g"
  shows "import_rule g1 fp cl al n p = import_rule g fp cl al n p"
  unfolding import_rule_def get_layer_from_import_frame [OF assms(2)] assms(1)
  by (rule refl)

lemma add_violation_frame:
  "layers_present (add_violation v g) = layers_present g"
  "module_path (add_violation v g) = module_path g"
  "project_root (add_violation v g) = project_root g"
  "gomod_config_valid (add_violation v g) = gomod_config_valid g"
  "printed (add_violation v g) = printed g"
  "violations (add_violation v g) = violations g @ [v]"
  by (simp_all add: add_violation_def)

lemma import_rule_add:
  "import_rule (add_violation v g) fp cl al n p = import_rule g fp cl al n p"
  by (rule import_rule_frame) (simp_all add: add_violation_frame)

lemma import_loop_violations:
  "violations (import_loop fp cl al imps g)
   = violations g @ List.map_filter (\<lambda>(n, p). import_rule g fp cl al n p) imps"
proof (induction imps arbitrary: g)
  case Nil
  then show ?case by simp
next
  case (Cons r imps)
  obtain n p where r: "r = (n, p)" by (cases r)
  show ?case
  proof (cases "import_rule g fp cl al n p")
    case None
    then show ?thesis by (simp add: r Cons)
  next
    case (Some v)
    have "violations (import_loop fp cl al (r # imps) g)
        = violations (import_loop fp cl al imps (add_violation v g))"
      by (simp add: r Some)
    also have "\<dots> = violations (add_violation v g)
        @ List.map_filter (\<lambda>(n, p). import_rule (add_violation v g) fp cl al n p) imps"
      by (rule Cons)
    also have "\<dots> = violations g @ v # List.map_filter (\<lambda>(n, p). import_rule g fp cl al n p) imps"
      by (simp only: import_rule_add add_violation_frame append_assoc append_Cons append_Nil)
    also have "\<dots> = violations g @ List.map_filter (\<lambda>(n, p). import_rule g fp cl al n p) (r # imps)"
      by (simp add: r Some)
    finally show ?thesis .
  qed
qed

lemma import_loop_frame:
  "layers_present (import_loop fp cl al imps g) = layers_present g
   \<and> module_path (import_loop fp cl al imps g) = module_path g
   \<and> project_root (import_loop fp cl al imps g) = project_root g
   \<and> gomod_config_valid (import_loop fp cl al imps g) = gomod_config_valid g
   \<and> printed (import_loop fp cl al imps g) = printed g"
proof (induction imps arbitrary: g)
  case Nil
  then show ?case by simp
next
  case (Cons r imps)
  obtain n p where r: "r = (n, p)" by (cases r)
  show ?case
  proof (cases "import_rule g fp cl al n p")
    case None
    then show ?thesis by (simp add: r Cons)
  next
    case (Some v)
    then show ?thesis by (simp add: r Cons add_violation_frame)
  qed
qed

lemma test_import_loop_frame:
  "layers_present (test_import_loop fp imps g) = layers_present g
   \<and> module_path (test_import_loop fp imps g) = module_path g
   \<and> project_root (test_import_loop fp imps g) = project_root g
   \<and> gomod_config_valid (test_import_loop fp imps g) = gomod_config_valid g
   \<and> printed (test_import_loop fp imps g) = printed g"
proof (induction imps arbitrary: g)
  case Nil
  then show ?case by simp
next
  case (Cons r imps)
  obtain n p where r: "r = (n, p)" by (cases r)
  show ?case
    by (cases "test_import_rule fp n p") (simp_all add: r Cons add_violation_frame)
qed

lemma test_import_loop_violations:
  "violations (test_import_loop fp imps g)
   = violations g @ List.map_filter (\<lambda>(n, p). test_import_rule fp n p) imps"
proof (induction imps arbitrary: g)
  case Nil
  then show ?case by simp
next
  case (Cons r imps)
  obtain n p where r: "r = (n, p)" by (cases r)
  show ?case
    by (cases "test_import_rule fp n p")
      (simp_all add: r Cons add_violation_frame)
qed

lemma extract_imports_fst:
  "fst (extract_imports e rel g) = extract_lines False 1 (lines_read (read_text e rel))"
  by (simp add: extract_imports_def Let_def)

lemma extract_imports_frame:
  "layers_present (snd (extract_imports e rel g)) = layers_present g
   \<and> module_path (snd (extract_imports e rel g)) = module_path g
   \<and> project_root (snd (extract_imports e rel g)) = project_root g
   \<and> gomod_config_valid (snd (extract_imports e rel g)) = gomod_config_valid g
   \<and> violations (snd (extract_imports e rel g)) = violations g"
  by (simp add: extract_imports_def Let_def print_line_def)

lemma validate_no_test_imports_unfold:
  "validate_no_test_imports e rel g =
     (if endswith (path_name (project_root g @ rel)) ''_test.go'' then g
      else test_import_loop (path_str (project_root g @ rel)) (fst (extract_imports e rel g))
             (snd (extract_imports e rel g)))"
  unfolding validate_no_test_imports_def Let_def case_prod_beta by (rule refl)

lemma validate_no_test_imports_frame:
  "layers_present (validate_no_test_imports e rel g) = layers_present g
   \<and> module_path (validate_no_test_imports e rel g) = module_path g
   \<and> project_root (validate_no_test_imports e rel g) = project_root g
   \<and> gomod_config_valid (validate_no_test_imports e rel g) = gomod_config_valid g"
  by (simp add: validate_no_test_imports_unfold test_import_loop_frame extract_imports_frame)

lemma validate_no_test_imports_violations:
  "violations (validate_no_test_imports e rel g) = violations g @ test_part e rel g"
  by (simp add: validate_no_test_imports_unfold test_part_def test_import_loop_violations
      extract_imports_frame)

lemma get_file_layer_key: "get_file_layer rel = Some cl \<Longrightarrow> cl \<in> dom LAYER_RULES"
  by (auto simp: get_file_layer_def split: list.splits if_splits)

lemma validate_file_unfold:
  "validate_file e rel g =
     (case get_file_layer rel of
        None \<Rightarrow> Inr (validate_no_test_imports e rel g)
      | Some cl \<Rightarrow>
          if cl \<notin> layers_present g then Inr (validate_no_test_imports e rel g)
          else (case LAYER_RULES cl of
                  None \<Rightarrow> Inl (KeyError cl)
                | Some al \<Rightarrow>
                    Inr (import_loop (path_str (project_root g @ rel)) cl al
                           (fst (extract_imports e rel (validate_no_test_imports e rel g)))
                           (snd (extract_imports e rel (validate_no_test_imports e rel g))))))"
  unfolding validate_file_def Let_def case_prod_beta
  by (simp only: validate_no_test_imports_frame)

lemma validate_file_Inr:
  "\<exists>g1. validate_file e rel g = Inr g1
     \<and> violations g1 = violations g @ test_part e rel g @ layer_part e rel g
     \<and> layers_present g1 = layers_present g \<and> module_path g1 = module_path g
     \<and> project_root g1 = project_root g \<and> gomod_config_valid g1 = gomod_config_valid g"
proof -
  define g1 where "g1 = validate_no_test_imports e rel g"
  have f1: "layers_present g1 = layers_present g" "module_path g1 = module_path g"
    "project_root g1 = project_root g" "gomod_config_valid g1 = gomod_config_valid g"
    by (simp_all add: g1_def validate_no_test_imports_frame)
  have v1: "violations g1 = violations g @ test_part e rel g"
    by (simp add: g1_def validate_no_test_imports_violations)
  show ?thesis
  proof (cases "get_file_layer rel")
    case None
    then have "validate_file e rel g = Inr g1"
      by (simp add: validate_file_unfold g1_def)
    moreover from None have "layer_part e rel g = []"
      by (simp add: layer_part_def)
    ultimately show ?thesis
      using f1 v1 by simp
  next
    case (Some cl)
    show ?thesis
    proof (cases "cl \<in> layers_present g")
      case False
      with Some have "validate_file e rel g = Inr g1"
        by (simp add: validate_file_unfold g1_def)
      moreover from Some False have "layer_part e rel g = []"
        by (simp add: layer_part_def)
      ultimately show ?thesis
        using f1 v1 by simp
    next
      case True
      from Some obtain al where al: "LAYER_RULES cl = Some al"
        using get_file_layer_key by blast
      define imps where "imps = fst (extract_imports e rel g1)"
      define g2 where "g2 = snd (extract_imports e rel g1)"
      define fp where "fp = path_str (project_root g @ rel)"
      have f2: "layers_present g2 = layers_present g" "module_path g2 = module_path g"
        "project_root g2 = project_root g" "gomod_config_valid g2 = gomod_config_valid g"
        "violations g2 = violations g1"
        by (simp_all add: g2_def extract_imports_frame f1)
      have im: "imps = fst (extract_imports e rel g)"
        by (simp add: imps_def extract_imports_fst)
      have vf: "validate_file e rel g = Inr (import_loop fp cl al imps g2)"
        using Some True al
        by (simp add: validate_file_unfold g1_def imps_def g2_def fp_def)
      have rl: "\<And>n p. import_rule g2 fp cl al n p = import_rule g fp cl al n p"
        by (rule import_rule_frame) (simp_all add: f2)
      have lp: "layer_part e rel g
          = List.map_filter (\<lambda>(n, p). import_rule g fp cl al n p) imps"
        using Some True al by (simp add: layer_part_def im fp_def)
      have "violations (import_loop fp cl al imps g2)
          = violations g2 @ List.map_filter (\<lambda>(n, p). import_rule g2 fp cl al n p) imps"
        by (rule import_loop_violations)
      then have "violations (import_loop fp cl al imps g2)
          = violations g @ test_part e rel g @ layer_part e rel g"
        by (simp only: rl lp f2 v1 append_assoc)
      with vf show ?thesis
        by (simp add: import_loop_frame f2)
    qed
  qed
qed

lemma appended_eq: "appended e rel g = test_part e rel g @ layer_part e rel g"
  using validate_file_Inr [of e rel g] by (auto simp: appended_def)

lemma filter_line_map_filter:
  assumes "distinct (map fst imps)" and "(n, p) \<in> set imps"
    and "\<And>m q v. f m q = Some v \<Longrightarrow> line_number v = m"
  shows "filter (\<lambda>v. line_number v = n) (List.map_filter (\<lambda>(m, q). f m q) imps)
         = (case f n p of None \<Rightarrow> [] | Some v \<Rightarrow> [v])"
  using assms(1,2)
proof (induction imps)
  case Nil
  then show ?case by simp
next
  case (Cons r imps)
  obtain m q where r: "r = (m, q)" by (cases r)
  have none: "\<And>k. k \<notin> fst ` set imps
      \<Longrightarrow> filter (\<lambda>v. line_number v = k) (List.map_filter (\<lambda>(m, q). f m q) imps) = []"
  proof -
    fix k assume k: "k \<notin> fst ` set imps"
    have "\<And>v. v \<in> set (List.map_filter (\<lambda>(m, q). f m q) imps) \<Longrightarrow> line_number v \<noteq> k"
    proof -
      fix v assume "v \<in> set (List.map_filter (\<lambda>(m, q). f m q) imps)"
      then obtain m' q' where "(m', q') \<in> set imps" "f m' q' = Some v"
        by (auto simp: map_filter_def)
      with k assms(3) show "line_number v \<noteq> k" by force
    qed
    then show "filter (\<lambda>v. line_number v = k) (List.map_filter (\<lambda>(m, q). f m q) imps) = []"
      by (simp add: filter_empty_conv)
  qed
  show ?case
  proof (cases "(n, p) = (m, q)")
    case True
    with Cons.prems r have "n \<notin> fst ` set imps" by auto
    from none [OF this] True r assms(3) show ?thesis
      by (auto simp: split: option.splits)
  next
    case False
    with Cons.prems r have in': "(n, p) \<in> set imps" and d: "distinct (map fst imps)"
      and ne: "m \<noteq> n"
      by (auto simp: rev_image_eqI)
    from Cons.IH [OF d in'] ne assms(3) r show ?thesis
      by (auto simp: split: option.splits)
  qed
qed

lemma import_rule_line: "import_rule g fp cl al m q = Some v \<Longrightarrow> line_number v = m"
  by (auto simp: import_rule_def split: option.splits if_splits)

lemma test_import_rule_line: "test_import_rule fp m q = Some v \<Longrightarrow> line_number v = m"
  by (auto simp: test_import_rule_def split: if_splits)

lemma classified_not_testing: "get_layer_from_import g p = Some l \<Longrightarrow> p \<noteq> ''testing''"
  using get_layer_from_import_not_testing by auto

lemma imports_distinct: "distinct (map fst (fst (extract_imports e rel g)))"
  by (simp add: extract_imports_fst extract_lines_distinct)

text \<open>The violations with the line number of one import record.\<close>

lemma test_part_at_line:
  assumes "(n, p) \<in> set (fst (extract_imports e rel g))"
  shows "filter (\<lambda>v. line_number v = n) (test_part e rel g)
         = (case (if endswith (path_name (project_root g @ rel)) ''_test.go'' then None
                  else test_import_rule (path_str (project_root g @ rel)) n p) of
              None \<Rightarrow> [] | Some v \<Rightarrow> [v])"
  using filter_line_map_filter [OF imports_distinct assms,
      of "test_import_rule (path_str (project_root g @ rel))"]
  by (simp add: test_part_def test_import_rule_line)

lemma layer_part_at_line:
  assumes "(n, p) \<in> set (fst (extract_imports e rel g))"
    and "get_file_layer rel = Some cl" and "cl \<in> layers_present g"
    and "LAYER_RULES cl = Some al"
  shows "filter (\<lambda>v. line_number v = n) (layer_part e rel g)
      = (case import_rule g (path_str (project_root g @ rel)) cl al n p of
                None \<Rightarrow> [] | Some v \<Rightarrow> [v])"
  using filter_line_map_filter [OF imports_distinct assms(1),
      of "import_rule g (path_str (project_root g @ rel)) cl al"] assms(2-4)
  by (simp add: layer_part_def import_rule_line)

lemma appended_at_line:
  assumes "(n, p) \<in> set (fst (extract_imports e rel g))"
    and "get_file_layer rel = Some cl" and "cl \<in> layers_present g"
    and "LAYER_RULES cl = Some al"
  shows "filter (\<lambda>v. line_number v = n) (appended e rel g)
         = (case (if endswith (path_name (project_root g @ rel)) ''_test.go'' then None
                  else test_import_rule (path_str (project_root g @ rel)) n p) of
              None \<Rightarrow> [] | Some v \<Rightarrow> [v])
           @ (case import_rule g (path_str (project_root g @ rel)) cl al n p of
                None \<Rightarrow> [] | Some v \<Rightarrow> [v])"
  by (simp add: appended_eq test_part_at_line [OF assms(1)] layer_part_at_line [OF assms])

text \<open>
  Claim C2. In a file of the presentation layer, an import record whose path classifies
  as domain, with both layers present, gets exactly one violation: among the violations
  that \<open>validate_file\<close> appends, the ones with the line number of the record are the
  single violation of kind \<open>PRESENTATION_IMPORTS_DOMAIN\<close>. No violation of kind
  \<open>ILLEGAL_LAYER_DEPENDENCY\<close> is recorded for it, although domain is not in the
  allowed set of presentation.
\<close>

theorem presentation_imports_domain:
  assumes "get_file_layer rel = Some ''presentation''"
    and "''presentation'' \<in> layers_present g" and "''domain'' \<in> layers_present g"
    and "(n, p) \<in> set (fst (extract_imports e rel g))"
    and "get_layer_from_import g p = Some ''domain''"
  shows "filter (\<lambda>v. line_number v = n) (appended e rel g)
         = [\<lparr>file_path = path_str (project_root g @ rel), line_number = n,
             violation_type = ''PRESENTATION_IMPORTS_DOMAIN'',
             details = ''Presentation MUST NOT import Domain directly (import: '' @ p @ '')''
               @ remediation_hint\<rparr>]"
proof -
  have al: "LAYER_RULES ''presentation'' = Some {''application''}"
    by (simp add: LAYER_RULES_def)
  have nt: "test_import_rule (path_str (project_root g @ rel)) n p = None"
    using classified_not_testing [OF assms(5)] by (simp add: test_import_rule_def)
  have ir: "import_rule g (path_str (project_root g @ rel)) ''presentation'' {''application''} n p
      = Some \<lparr>file_path = path_str (project_root g @ rel), line_number = n,
             violation_type = ''PRESENTATION_IMPORTS_DOMAIN'',
             details = ''Presentation MUST NOT import Domain directly (import: '' @ p @ '')''
               @ remediation_hint\<rparr>"
    using assms(3,5) by (simp add: import_rule_def FORBIDDEN_DEPENDENCY_def)
  show ?thesis
    by (simp add: appended_at_line [OF assms(4) assms(1) assms(2) al] nt ir)
qed

lemma get_module_path_cong:
  "root_gomod e1 = root_gomod e2 \<Longrightarrow> get_module_path e1 = get_module_path e2"
  by (simp add: get_module_path_def)

lemma scenario_module_path: "get_module_path scenario_env = (''example.com/app'', [])"
  by (simp add: get_module_path_def scenario_env_def match_module_line_def strip_def
      is_space_def Let_def)

lemma scenario_imports:
  "fst (extract_imports scenario_env [''presentation'', ''handler.go''] scenario_guard)
   = [(2, ''example.com/app/domain/entity'')]"
  by (simp add: extract_imports_def scenario_env_def strip_def is_space_def is_word_def
      match_import_line_def alias_quoted_def quoted_path_def dquote_def Let_def)

theorem presentation_imports_domain_witness:
  "filter (\<lambda>v. line_number v = 2)
     (appended scenario_env [''presentation'', ''handler.go''] scenario_guard)
   = [\<lparr>file_path = ''/srv/app/presentation/handler.go'', line_number = 2,
       violation_type = ''PRESENTATION_IMPORTS_DOMAIN'',
       details = ''Presentation MUST NOT import Domain directly (import: example.com/app/domain/entity)''
         @ remediation_hint\<rparr>]"
proof -
  have 1: "get_file_layer [''presentation'', ''handler.go''] = Some ''presentation''"
    by (simp add: get_file_layer_def dom_LAYER_RULES)
  have 2: "''presentation'' \<in> layers_present scenario_guard"
    and 3: "''domain'' \<in> layers_present scenario_guard"
    by (simp_all add: scenario_guard_def)
  have 4: "(2, ''example.com/app/domain/entity'')
      \<in> set (fst (extract_imports scenario_env [''presentation'', ''handler.go''] scenario_guard))"
    by (simp add: scenario_imports)
  have 5: "get_layer_from_import scenario_guard ''example.com/app/domain/entity'' = Some ''domain''"
    by (simp add: get_layer_from_import_def scenario_guard_def slash_def dom_LAYER_RULES)
  show ?thesis
    using presentation_imports_domain [OF 1 2 3 4 5]
    by (simp add: scenario_guard_def path_str_def slash_def)
qed

text \<open>
  Claim C3. In a file of a present layer \<open>L\<close> other than bootstrap, an import record
  whose path classifies as bootstrap, bootstrap being present, gets exactly one violation,
  of kind \<open>FORBIDDEN_BOOTSTRAP_DEPENDENCY\<close>. The loop appends it whatever the allowed
  set is, and goes on with the remaining records.
\<close>

theorem forbidden_bootstrap_dependency:
  assumes "get_file_layer rel = Some L" and "L \<noteq> ''bootstrap''"
    and "L \<in> layers_present g" and "''bootstrap'' \<in> layers_present g"
    and "(n, p) \<in> set (fst (extract_imports e rel g))"
    and "get_layer_from_import g p = Some ''bootstrap''"
  shows "filter (\<lambda>v. line_number v = n) (appended e rel g)
           = [\<lparr>file_path = path_str (project_root g @ rel), line_number = n,
               violation_type = ''FORBIDDEN_BOOTSTRAP_DEPENDENCY'',
               details = cannot_depend L ''bootstrap'' p\<rparr>]
         \<and> (\<forall>fp al rest.
               import_loop fp L al ((n, p) # rest) g
               = import_loop fp L al rest
                   (add_violation
                      \<lparr>file_path = fp, line_number = n,
                       violation_type = ''FORBIDDEN_BOOTSTRAP_DEPENDENCY'',
                       details = cannot_depend L ''bootstrap'' p\<rparr> g))"
proof -
  from assms(1) obtain al where al: "LAYER_RULES L = Some al"
    using get_file_layer_key by blast
  have nt: "test_import_rule (path_str (project_root g @ rel)) n p = None"
    using classified_not_testing [OF assms(6)] by (simp add: test_import_rule_def)
  have ir: "\<And>fp al. import_rule g fp L al n p
      = Some \<lparr>file_path = fp, line_number = n,
               violation_type = ''FORBIDDEN_BOOTSTRAP_DEPENDENCY'',
               details = cannot_depend L ''bootstrap'' p\<rparr>"
    using assms(2,4,6) by (simp add: import_rule_def FORBIDDEN_DEPENDENCY_def)
  show ?thesis
    by (simp add: appended_at_line [OF assms(5) assms(1) assms(3) al] nt ir)
qed

lemmas extract_eval = extract_imports_def strip_def is_space_def is_word_def
  match_import_line_def match_block_line_def alias_quoted_def quoted_path_def dquote_def Let_def

lemma scenario_db_imports:
  "fst (extract_imports scenario_env [''infrastructure'', ''db.go''] scenario_guard)
   = [(3, ''example.com/app/bootstrap/wire'')]"
  by (simp add: scenario_env_def extract_eval)

lemma scenario_service_imports:
  "fst (extract_imports scenario_env [''application'', ''service.go''] scenario_guard)
   = [(2, ''testing''), (3, ''example.com/app/application/port''), (4, ''testing/quick'')]"
  by (simp add: scenario_env_def extract_eval)

lemma scenario_service_test_imports:
  "fst (extract_imports scenario_env [''application'', ''service_test.go''] scenario_guard)
   = [(2, ''testing'')]"
  by (simp add: scenario_env_def extract_eval)

theorem forbidden_bootstrap_dependency_witness:
  "filter (\<lambda>v. line_number v = 3)
     (appended scenario_env [''infrastructure'', ''db.go''] scenario_guard)
   = [\<lparr>file_path = ''/srv/app/infrastructure/db.go'', line_number = 3,
       violation_type = ''FORBIDDEN_BOOTSTRAP_DEPENDENCY'',
       details = ''Layer 'infrastructure' cannot depend on 'bootstrap' (import: example.com/app/bootstrap/wire)''\<rparr>]"
proof -
  have 1: "get_file_layer [''infrastructure'', ''db.go''] = Some ''infrastructure''"
    by (simp add: get_file_layer_def dom_LAYER_RULES)
  have 2: "''infrastructure'' \<noteq> ''bootstrap''"
    by simp
  have 3: "''infrastructure'' \<in> layers_present scenario_guard"
    and 4: "''bootstrap'' \<in> layers_present scenario_guard"
    by (simp_all add: scenario_guard_def)
  have 5: "(3, ''example.com/app/bootstrap/wire'')
      \<in> set (fst (extract_imports scenario_env [''infrastructure'', ''db.go''] scenario_guard))"
    by (simp add: scenario_db_imports)
  have 6: "get_layer_from_import scenario_guard ''example.com/app/bootstrap/wire'' = Some ''bootstrap''"
    by (simp add: get_layer_from_import_def scenario_guard_def slash_def dom_LAYER_RULES)
  show ?thesis
    using forbidden_bootstrap_dependency [OF 1 2 3 4 5 6, THEN conjunct1]
    by (simp add: scenario_guard_def path_str_def slash_def cannot_depend_def)
qed

lemma layer_part_at_line_any:
  assumes "(n, p) \<in> set (fst (extract_imports e rel g))"
    and "get_file_layer rel = Some cl"
  shows "filter (\<lambda>v. line_number v = n) (layer_part e rel g)
      = (if cl \<in> layers_present g
         then (case import_rule g (path_str (project_root g @ rel)) cl (the (LAYER_RULES cl)) n p of
                 None \<Rightarrow> [] | Some v \<Rightarrow> [v])
         else [])"
proof (cases "cl \<in> layers_present g")
  case True
  from assms(2) obtain al where al: "LAYER_RULES cl = Some al"
    using get_file_layer_key by blast
  show ?thesis
    using True layer_part_at_line [OF assms True al] by (simp add: al)
next
  case False
  then show ?thesis
    using assms(2) by (simp add: layer_part_def)
qed

text \<open>
  Claim C4. The table \<open>LAYER_RULES\<close> has exactly the five layers as keys, with the
  allowed sets of the specification: the one of domain is empty, the one of bootstrap is
  all other layers. An import record whose path classifies as the layer of the file it
  is in gets no violation from any rule, the test rule included.
\<close>

theorem layer_rules_table:
  "dom LAYER_RULES
     = {''domain'', ''application'', ''infrastructure'', ''presentation'', ''bootstrap''}
   \<and> LAYER_RULES ''domain'' = Some {}
   \<and> LAYER_RULES ''application'' = Some {''domain''}
   \<and> LAYER_RULES ''infrastructure'' = Some {''application'', ''domain''}
   \<and> LAYER_RULES ''presentation'' = Some {''application''}
   \<and> LAYER_RULES ''bootstrap'' = Some (dom LAYER_RULES - {''bootstrap''})
   \<and> (\<forall>e rel g L n p.
         get_file_layer rel = Some L
         \<and> (n, p) \<in> set (fst (extract_imports e rel g))
         \<and> get_layer_from_import g p = Some L
         \<longrightarrow> filter (\<lambda>v. line_number v = n) (appended e rel g) = [])"
proof -
  have intra: "filter (\<lambda>v. line_number v = n) (appended e rel g) = []"
    if fl: "get_file_layer rel = Some L"
      and im: "(n, p) \<in> set (fst (extract_imports e rel g))"
      and cl: "get_layer_from_import g p = Some L"
    for e rel g L n p
  proof -
    have nt: "test_import_rule (path_str (project_root g @ rel)) n p = None"
      using classified_not_testing [OF cl] by (simp add: test_import_rule_def)
    have ir: "\<And>fp al. import_rule g fp L al n p = None"
      using cl by (simp add: import_rule_def)
    show ?thesis
      by (simp add: appended_eq test_part_at_line [OF im] layer_part_at_line_any [OF im fl] nt ir)
  qed
  have tab: "LAYER_RULES ''bootstrap'' = Some (dom LAYER_RULES - {''bootstrap''})"
    unfolding dom_LAYER_RULES by (auto simp: LAYER_RULES_def)
  have rows: "LAYER_RULES ''domain'' = Some {}"
    "LAYER_RULES ''application'' = Some {''domain''}"
    "LAYER_RULES ''infrastructure'' = Some {''application'', ''domain''}"
    "LAYER_RULES ''presentation'' = Some {''application''}"
    by (simp_all add: LAYER_RULES_def)
  from intra have "\<forall>e rel g L n p.
         get_file_layer rel = Some L
         \<and> (n, p) \<in> set (fst (extract_imports e rel g))
         \<and> get_layer_from_import g p = Some L
         \<longrightarrow> filter (\<lambda>v. line_number v = n) (appended e rel g) = []"
    by blast
  with dom_LAYER_RULES rows tab show ?thesis
    by (intro conjI)
qed

theorem layer_rules_table_witness:
  "get_file_layer [''application'', ''service.go''] = Some ''application''
   \<and> (3, ''example.com/app/application/port'')
       \<in> set (fst (extract_imports scenario_env [''application'', ''service.go''] scenario_guard))
   \<and> get_layer_from_import scenario_guard ''example.com/app/application/port''
       = Some ''application''
   \<and> filter (\<lambda>v. line_number v = 3)
        (appended scenario_env [''application'', ''service.go''] scenario_guard) = []"
proof -
  have 1: "get_file_layer [''application'', ''service.go''] = Some ''application''"
    by (simp add: get_file_layer_def dom_LAYER_RULES)
  have 2: "(3, ''example.com/app/application/port'')
      \<in> set (fst (extract_imports scenario_env [''application'', ''service.go''] scenario_guard))"
    by (simp add: scenario_service_imports)
  have 3: "get_layer_from_import scenario_guard ''example.com/app/application/port''
      = Some ''application''"
    by (simp add: get_layer_from_import_def scenario_guard_def slash_def dom_LAYER_RULES)
  from layer_rules_table 1 2 3 show ?thesis
    by blast
qed

lemma import_rule_kind:
  "import_rule g fp cl al m q = Some v \<Longrightarrow> violation_type v \<noteq> ''TEST_CODE_IN_PRODUCTION''"
  by (auto simp: import_rule_def split: option.splits if_splits)

lemma layer_part_no_test:
  "filter (\<lambda>v. violation_type v = ''TEST_CODE_IN_PRODUCTION'') (layer_part e rel g) = []"
  by (auto simp: layer_part_def filter_empty_conv map_filter_def import_rule_kind
      split: option.splits)

lemma test_rules_lines:
  "map line_number
     (filter (\<lambda>v. violation_type v = ''TEST_CODE_IN_PRODUCTION'')
        (List.map_filter (\<lambda>(n, p). test_import_rule fp n p) imps))
   = map fst (filter (\<lambda>(n, p). p = ''testing'') imps)"
  by (induction imps) (auto simp: test_import_rule_def)

lemma appended_test_lines:
  "map line_number
     (filter (\<lambda>v. violation_type v = ''TEST_CODE_IN_PRODUCTION'') (appended e rel g))
   = (if endswith (path_name (project_root g @ rel)) ''_test.go'' then []
      else map fst (filter (\<lambda>(n, p). p = ''testing'') (fst (extract_imports e rel g))))"
  by (simp add: appended_eq layer_part_no_test) (simp add: test_part_def test_rules_lines)

lemma scenario_names:
  "\<not> endswith (path_name (project_root scenario_guard @ [''application'', ''service.go''])) ''_test.go''"
  "endswith (path_name (project_root scenario_guard @ [''application'', ''service_test.go''])) ''_test.go''"
  by (simp_all add: endswith_def path_name_def scenario_guard_def suffix_def)

text \<open>
  Claim C10. The test rule gives a violation for an import path if and only if the path
  is the string \<open>testing\<close>; a violation of kind \<open>TEST_CODE_IN_PRODUCTION\<close> is
  appended for a line exactly when the file is not a test file and the line has an
  import record with that path. The other names of \<open>FORBIDDEN_TEST_IMPORTS\<close> and the
  path \<open>testing/quick\<close> give none.
\<close>

theorem only_testing_triggers:
  "((\<exists>v. test_import_rule fp m q = Some v) \<longleftrightarrow> q = ''testing'')
   \<and> ((\<exists>v \<in> set (appended e rel g).
          violation_type v = ''TEST_CODE_IN_PRODUCTION'' \<and> line_number v = n)
        \<longleftrightarrow> (\<not> endswith (path_name (project_root g @ rel)) ''_test.go''
             \<and> (n, ''testing'') \<in> set (fst (extract_imports e rel g))))
   \<and> (\<forall>q \<in> set FORBIDDEN_TEST_IMPORTS \<union> {''testing/quick''}.
         q \<noteq> ''testing'' \<longrightarrow> test_import_rule fp m q = None)"
proof -
  have a: "(\<exists>v. test_import_rule fp m q = Some v) \<longleftrightarrow> q = ''testing''"
    by (simp add: test_import_rule_def)
  have "(\<exists>v \<in> set (appended e rel g).
          violation_type v = ''TEST_CODE_IN_PRODUCTION'' \<and> line_number v = n)
      \<longleftrightarrow> n \<in> set (map line_number
            (filter (\<lambda>v. violation_type v = ''TEST_CODE_IN_PRODUCTION'') (appended e rel g)))"
    by auto
  also have "\<dots> \<longleftrightarrow> (\<not> endswith (path_name (project_root g @ rel)) ''_test.go''
             \<and> (n, ''testing'') \<in> set (fst (extract_imports e rel g)))"
    unfolding appended_test_lines by force
  finally have b: "(\<exists>v \<in> set (appended e rel g).
          violation_type v = ''TEST_CODE_IN_PRODUCTION'' \<and> line_number v = n)
        \<longleftrightarrow> (\<not> endswith (path_name (project_root g @ rel)) ''_test.go''
             \<and> (n, ''testing'') \<in> set (fst (extract_imports e rel g)))" .
  have c: "\<forall>q \<in> set FORBIDDEN_TEST_IMPORTS \<union> {''testing/quick''}.
         q \<noteq> ''testing'' \<longrightarrow> test_import_rule fp m q = None"
    by (simp add: test_import_rule_def)
  from a b c show ?thesis by (intro conjI)
qed

theorem only_testing_triggers_witness:
  "(4, ''testing/quick'')
     \<in> set (fst (extract_imports scenario_env [''application'', ''service.go''] scenario_guard))
   \<and> \<not> (\<exists>v \<in> set (appended scenario_env [''application'', ''service.go''] scenario_guard).
          violation_type v = ''TEST_CODE_IN_PRODUCTION'' \<and> line_number v = 4)
   \<and> (\<exists>v \<in> set (appended scenario_env [''application'', ''service.go''] scenario_guard).
          violation_type v = ''TEST_CODE_IN_PRODUCTION'' \<and> line_number v = 2)
   \<and> ''testify'' \<in> set FORBIDDEN_TEST_IMPORTS \<and> ''testify'' \<noteq> ''testing''
   \<and> test_import_rule ''f.go'' 1 ''testify'' = None
   \<and> test_import_rule ''f.go'' 1 ''testing/quick'' = None"
proof -
  note t = only_testing_triggers [of _ _ _ scenario_env "[''application'', ''service.go'']"
      scenario_guard]
  have 4: "\<not> (\<exists>v \<in> set (appended scenario_env [''application'', ''service.go''] scenario_guard).
          violation_type v = ''TEST_CODE_IN_PRODUCTION'' \<and> line_number v = 4)"
    using t [of _ _ _ 4, THEN conjunct2, THEN conjunct1]
    by (simp add: scenario_service_imports)
  have 2: "\<exists>v \<in> set (appended scenario_env [''application'', ''service.go''] scenario_guard).
          violation_type v = ''TEST_CODE_IN_PRODUCTION'' \<and> line_number v = 2"
    using t [of _ _ _ 2, THEN conjunct2, THEN conjunct1]
    by (simp add: scenario_service_imports scenario_names)
  have 3: "test_import_rule ''f.go'' 1 ''testify'' = None"
    "test_import_rule ''f.go'' 1 ''testing/quick'' = None"
    using t [of "''f.go''" 1 "''x''" 0, THEN conjunct2, THEN conjunct2]
    by (simp_all add: FORBIDDEN_TEST_IMPORTS_def)
  from 2 3 4 show ?thesis
    by (simp add: scenario_service_imports FORBIDDEN_TEST_IMPORTS_def)
qed

text \<open>
  Claim C9, at the input \<open>import f "os"\<close>, \<open>import . "fmt"\<close>: the import with the
  alias \<open>f\<close> gives a record, the import with the period in the place of the alias,
  which the grammar of Go permits as well, gives none.
\<close>

theorem dot_import_not_extracted:
  "extract_lines False 1 [''import f \"os\"'', ''import . \"fmt\"''] = [(1, ''os'')]"
  by (simp add: extract_eval)

text \<open>
  Claim C6, as stated, at a file whose read fails after the line \<open>import "testing"\<close>:
  the extractor returns the record of that line, and validation records a violation
  from it.
\<close>

theorem read_failure_keeps_records_counterexample:
  "read_failed (read_text truncated_env [''domain'', ''big.go''])
   \<and> fst (extract_imports truncated_env [''domain'', ''big.go''] scenario_guard) = [(2, ''testing'')]
   \<and> map violation_type (appended truncated_env [''domain'', ''big.go''] scenario_guard)
       = [''TEST_CODE_IN_PRODUCTION'']"
proof -
  have i: "fst (extract_imports truncated_env [''domain'', ''big.go''] scenario_guard)
      = [(2, ''testing'')]"
    by (simp add: truncated_env_def extract_eval)
  have n: "\<not> endswith (path_name (project_root scenario_guard @ [''domain'', ''big.go''])) ''_test.go''"
    by (simp add: endswith_def path_name_def scenario_guard_def suffix_def)
  have g: "get_layer_from_import scenario_guard ''testing'' = None"
    by (rule get_layer_from_import_not_testing)
  have t: "map violation_type (test_part truncated_env [''domain'', ''big.go''] scenario_guard)
      = [''TEST_CODE_IN_PRODUCTION'']"
    by (simp add: test_part_def i n test_import_rule_def)
  have l: "layer_part truncated_env [''domain'', ''big.go''] scenario_guard = []"
    by (simp add: layer_part_def i get_file_layer_def dom_LAYER_RULES import_rule_def g)
  show ?thesis
    by (simp add: i appended_eq t l) (simp add: truncated_env_def)
qed

lemma print_line_frame:
  "layers_present (print_line l g) = layers_present g"
  "module_path (print_line l g) = module_path g"
  "project_root (print_line l g) = project_root g"
  "gomod_config_valid (print_line l g) = gomod_config_valid g"
  "violations (print_line l g) = violations g"
  "printed (print_line l g) = printed g @ [l]"
  by (simp_all add: print_line_def)

lemma declared_layers_frame:
  "module_path g1 = module_path g \<Longrightarrow> declared_layers g1 c = declared_layers g c"
proof -
  assume "module_path g1 = module_path g"
  then have "get_layer_from_import g1 = get_layer_from_import g"
    by (intro ext) (rule get_layer_from_import_frame)
  then show ?thesis
    by (simp add: declared_layers_def)
qed

lemma manifest_ok_frame:
  "module_path g1 = module_path g \<Longrightarrow> manifest_ok e g1 l = manifest_ok e g l"
proof -
  assume "module_path g1 = module_path g"
  then have "\<And>c. declared_layers g1 c = declared_layers g c"
    by (rule declared_layers_frame)
  then show ?thesis
    by (simp add: manifest_ok_def split: option.splits manifest.splits)
qed

lemma gomod_loop_step:
  assumes "LAYER_RULES layer = Some al"
  shows "\<exists>line. gomod_loop e (layer # rest) valid g
           = gomod_loop e rest (valid \<and> manifest_ok e g layer) (print_line line g)
         \<and> (layer_gomod e layer = None \<longrightarrow> line = Gomod_missing layer)"
proof (cases "layer_gomod e layer")
  case None
  then show ?thesis
    by (intro exI [of _ "Gomod_missing layer"]) (simp add: manifest_ok_def)
next
  case (Some m)
  show ?thesis
  proof (cases m)
    case Unreadable
    with Some show ?thesis
      by (intro exI [of _ "Gomod_read_error layer"]) (simp add: manifest_ok_def)
  next
    case (Content c)
    show ?thesis
    proof (cases "declared_layers g c - al = {}")
      case True
      with Some Content assms show ?thesis
        by (intro exI [of _ "Gomod_dependencies layer (sorted_list_of_set (declared_layers g c))"])
          (simp add: manifest_ok_def allowed_dependencies_def)
    next
      case False
      with Some Content assms show ?thesis
        by (intro exI [of _ "Gomod_forbidden layer (sorted_list_of_set (declared_layers g c - al))"])
          (simp add: manifest_ok_def allowed_dependencies_def)
    qed
  qed
qed

lemma gomod_loop_result:
  assumes "set ls \<subseteq> dom LAYER_RULES"
  shows "\<exists>g1 out. gomod_loop e ls valid g = Inr (valid \<and> (\<forall>l \<in> set ls. manifest_ok e g l), g1)
           \<and> layers_present g1 = layers_present g \<and> module_path g1 = module_path g
           \<and> project_root g1 = project_root g \<and> violations g1 = violations g
           \<and> gomod_config_valid g1 = gomod_config_valid g
           \<and> printed g1 = printed g @ out
           \<and> (\<forall>l \<in> set ls. layer_gomod e l = None \<longrightarrow> Gomod_missing l \<in> set out)"
  using assms
proof (induction ls arbitrary: valid g)
  case Nil
  then show ?case by simp
next
  case (Cons layer rest)
  then obtain al where al: "LAYER_RULES layer = Some al" and sub: "set rest \<subseteq> dom LAYER_RULES"
    by auto
  from gomod_loop_step [OF al, of e rest valid g] obtain line where
    st: "gomod_loop e (layer # rest) valid g
           = gomod_loop e rest (valid \<and> manifest_ok e g layer) (print_line line g)"
    and ln: "layer_gomod e layer = None \<longrightarrow> line = Gomod_missing layer"
    by (elim exE conjE)
  from Cons.IH [OF sub, of "valid \<and> manifest_ok e g layer" "print_line line g"]
  obtain g1 out where
    r: "gomod_loop e rest (valid \<and> manifest_ok e g layer) (print_line line g)
          = Inr ((valid \<and> manifest_ok e g layer)
                 \<and> (\<forall>l \<in> set rest. manifest_ok e (print_line line g) l), g1)"
    and f: "layers_present g1 = layers_present g" "module_path g1 = module_path g"
      "project_root g1 = project_root g" "violations g1 = violations g"
      "gomod_config_valid g1 = gomod_config_valid g"
    and p: "printed g1 = printed g @ line # out"
    and m: "\<forall>l \<in> set rest. layer_gomod e l = None \<longrightarrow> Gomod_missing l \<in> set out"
    by (auto simp: print_line_frame)
  have ok: "\<And>l. manifest_ok e (print_line line g) l = manifest_ok e g l"
    by (rule manifest_ok_frame) (simp add: print_line_frame)
  have v: "((valid \<and> manifest_ok e g layer) \<and> (\<forall>l \<in> set rest. manifest_ok e (print_line line g) l))
      = (valid \<and> (\<forall>l \<in> set (layer # rest). manifest_ok e g l))"
    by (auto simp: ok)
  have m2: "\<forall>l \<in> set (layer # rest). layer_gomod e l = None \<longrightarrow> Gomod_missing l \<in> set (line # out)"
    using ln m by auto
  have "gomod_loop e (layer # rest) valid g
      = Inr (valid \<and> (\<forall>l \<in> set (layer # rest). manifest_ok e g l), g1)"
    by (simp only: st r v)
  with f p m2 show ?case
    by (intro exI [of _ g1] exI [of _ "line # out"] conjI)
qed

lemma validate_gomod_config_result:
  assumes "layers_present g \<subseteq> dom LAYER_RULES"
  shows "\<exists>g1 out. validate_gomod_config e g
             = Inr (\<forall>l \<in> layers_present g. manifest_ok e g l, g1)
           \<and> layers_present g1 = layers_present g \<and> module_path g1 = module_path g
           \<and> project_root g1 = project_root g \<and> violations g1 = violations g
           \<and> gomod_config_valid g1 = gomod_config_valid g
           \<and> printed g1 = printed g @ out
           \<and> (\<forall>l \<in> layers_present g. layer_gomod e l = None \<longrightarrow> Gomod_missing l \<in> set out)"
proof -
  have fin: "finite (layers_present g)"
    using assms finite_dom_LAYER_RULES by (rule finite_subset)
  define g0 where "g0 = print_line Validating_gomod (print_line Blank g)"
  have s: "set (sorted_list_of_set (layers_present g)) = layers_present g"
    using fin by simp
  with assms have sub: "set (sorted_list_of_set (layers_present g)) \<subseteq> dom LAYER_RULES"
    by simp
  from gomod_loop_result [OF sub, of e True g0] obtain g1 out where
    r: "gomod_loop e (sorted_list_of_set (layers_present g)) True g0
          = Inr (\<forall>l \<in> layers_present g. manifest_ok e g0 l, g1)"
    and f: "layers_present g1 = layers_present g0" "module_path g1 = module_path g0"
      "project_root g1 = project_root g0" "violations g1 = violations g0"
      "gomod_config_valid g1 = gomod_config_valid g0"
    and p: "printed g1 = printed g0 @ out"
    and m: "\<forall>l \<in> layers_present g. layer_gomod e l = None \<longrightarrow> Gomod_missing l \<in> set out"
    unfolding s by auto
  have f0: "layers_present g0 = layers_present g" "module_path g0 = module_path g"
    "project_root g0 = project_root g" "violations g0 = violations g"
    "gomod_config_valid g0 = gomod_config_valid g"
    "printed g0 = printed g @ [Blank, Validating_gomod]"
    by (simp_all add: g0_def print_line_frame)
  have ok: "\<And>l. manifest_ok e g0 l = manifest_ok e g l"
    by (rule manifest_ok_frame) (simp add: f0)
  have vg: "validate_gomod_config e g = Inr (\<forall>l \<in> layers_present g. manifest_ok e g l, g1)"
    using r by (simp add: validate_gomod_config_def g0_def [symmetric] ok)
  have p2: "printed g1 = printed g @ (Blank # Validating_gomod # out)"
    using p f0 by simp
  have m2: "\<forall>l \<in> layers_present g. layer_gomod e l = None
      \<longrightarrow> Gomod_missing l \<in> set (Blank # Validating_gomod # out)"
    using m by simp
  from vg f f0 p2 m2 show ?thesis
    by (intro exI [of _ g1] exI [of _ "Blank # Validating_gomod # out"] conjI) simp_all
qed

text \<open>
  Claim C8, as stated, at a project whose only present layer is domain with an
  unreadable \<open>go.mod\<close>: the set of forbidden dependencies of the layer is empty, and
  the configuration is reported invalid.
\<close>

theorem unreadable_manifest_counterexample:
  "validate_gomod_config unreadable_env domain_guard
     = Inr (False, domain_guard\<lparr>printed := [Blank, Validating_gomod, Gomod_read_error ''domain'']\<rparr>)
   \<and> declared_of unreadable_env domain_guard ''domain'' - allowed_dependencies ''domain'' = {}"
  by (simp add: validate_gomod_config_def unreadable_env_def domain_guard_def scenario_guard_def
      print_line_def declared_of_def)

lemma manifest_ok_iff:
  "manifest_ok e g l
   \<longleftrightarrow> layer_gomod e l \<noteq> Some Unreadable \<and> declared_of e g l - allowed_dependencies l = {}"
  by (simp add: manifest_ok_def declared_of_def split: option.splits manifest.splits)

text \<open>
  Claim C8, amended. For a guard whose present layers are layers of the table, the
  manifest check returns the conjunction, over the present layers, of: the \<open>go.mod\<close>
  of the layer is not unreadable, and the declared layers outside the allowed set are
  none. For a present layer without \<open>go.mod\<close> the warning is printed, the declared
  set is empty, and the layer passes.
\<close>

theorem manifest_validity:
  assumes "layers_present g \<subseteq> dom LAYER_RULES"
  shows "\<exists>g1. validate_gomod_config e g
             = Inr (\<forall>l \<in> layers_present g.
                      layer_gomod e l \<noteq> Some Unreadable
                      \<and> declared_of e g l - allowed_dependencies l = {}, g1)
           \<and> (\<forall>l \<in> layers_present g. layer_gomod e l = None \<longrightarrow>
                 Gomod_missing l \<in> set (printed g1) \<and> declared_of e g l = {}
                 \<and> declared_of e g l - allowed_dependencies l = {})"
proof -
  from validate_gomod_config_result [OF assms, of e] obtain g1 out where
    r: "validate_gomod_config e g = Inr (\<forall>l \<in> layers_present g. manifest_ok e g l, g1)"
    and p: "printed g1 = printed g @ out"
    and m: "\<forall>l \<in> layers_present g. layer_gomod e l = None \<longrightarrow> Gomod_missing l \<in> set out"
    by (elim exE conjE)
  have d: "\<forall>l. layer_gomod e l = None \<longrightarrow> declared_of e g l = {}"
    by (simp add: declared_of_def)
  from r have "validate_gomod_config e g
             = Inr (\<forall>l \<in> layers_present g.
                      layer_gomod e l \<noteq> Some Unreadable
                      \<and> declared_of e g l - allowed_dependencies l = {}, g1)"
    by (simp only: manifest_ok_iff)
  moreover have "\<forall>l \<in> layers_present g. layer_gomod e l = None \<longrightarrow>
                 Gomod_missing l \<in> set (printed g1) \<and> declared_of e g l = {}
                 \<and> declared_of e g l - allowed_dependencies l = {}"
    using m d by (simp add: p)
  ultimately show ?thesis
    by (intro exI [of _ g1] conjI)
qed

lemma scenario_declared:
  "declared_of scenario_env scenario_guard ''application'' = {''domain''}"
  by (simp add: declared_of_def scenario_env_def declared_layers_def match_require_def
      is_space_def get_layer_from_import_def scenario_guard_def slash_def dom_LAYER_RULES
      map_filter_def Let_def)

theorem manifest_validity_witness:
  "layers_present scenario_guard \<subseteq> dom LAYER_RULES
   \<and> layer_gomod scenario_env ''domain'' = None
   \<and> (\<exists>g1. validate_gomod_config scenario_env scenario_guard = Inr (True, g1)
          \<and> Gomod_missing ''domain'' \<in> set (printed g1))"
proof -
  have 1: "layers_present scenario_guard \<subseteq> dom LAYER_RULES"
    by (simp add: scenario_guard_def dom_LAYER_RULES)
  have 2: "\<And>l. l \<noteq> ''application'' \<Longrightarrow> layer_gomod scenario_env l = None"
    by (simp add: scenario_env_def)
  have 3: "\<And>l. l \<noteq> ''application'' \<Longrightarrow> declared_of scenario_env scenario_guard l = {}"
    by (simp add: declared_of_def 2)
  have 4: "layer_gomod scenario_env ''application'' \<noteq> Some Unreadable"
    by (simp add: scenario_env_def)
  have 5: "allowed_dependencies ''application'' = {''domain''}"
    by (simp add: allowed_dependencies_def LAYER_RULES_def)
  have v: "(\<forall>l \<in> layers_present scenario_guard.
              layer_gomod scenario_env l \<noteq> Some Unreadable
              \<and> declared_of scenario_env scenario_guard l - allowed_dependencies l = {}) = True"
  proof -
    have lp: "layers_present scenario_guard
        = {''domain'', ''application'', ''infrastructure'', ''presentation'', ''bootstrap''}"
      by (simp add: scenario_guard_def)
    show ?thesis
      unfolding lp by (simp add: 2 3 4 5 scenario_declared)
  qed
  have d: "''domain'' \<in> layers_present scenario_guard"
    by (simp add: scenario_guard_def)
  from manifest_validity [OF 1, of scenario_env] obtain g1 where
    r: "validate_gomod_config scenario_env scenario_guard = Inr
          (\<forall>l \<in> layers_present scenario_guard.
              layer_gomod scenario_env l \<noteq> Some Unreadable
              \<and> declared_of scenario_env scenario_guard l - allowed_dependencies l = {}, g1)"
    and m: "\<forall>l \<in> layers_present scenario_guard. layer_gomod scenario_env l = None \<longrightarrow>
                 Gomod_missing l \<in> set (printed g1) \<and> declared_of scenario_env scenario_guard l = {}
                 \<and> declared_of scenario_env scenario_guard l - allowed_dependencies l = {}"
    by (elim exE conjE)
  from m d 2 [of "''domain''"] have "Gomod_missing ''domain'' \<in> set (printed g1)"
    by simp
  with r v 1 2 [of "''domain''"] show ?thesis
    by (intro conjI exI [of _ g1]) simp_all
qed

lemma detect_loop_fst:
  "fst (detect_loop e ls (S, out)) = S \<union> {l \<in> set ls. layer_is_dir e l}"
  by (induction ls arbitrary: S out) auto

lemma init_guard_fields:
  "layers_present (init_guard e)
     = (if root_exists e then {l \<in> dom LAYER_RULES. layer_is_dir e l} else {})"
  "violations (init_guard e) = []"
  "project_root (init_guard e) = root_parts e"
  "module_path (init_guard e) = fst (get_module_path e)"
proof -
  have s: "set sorted_layer_names = dom LAYER_RULES"
    by (simp add: sorted_layer_names_def finite_dom_LAYER_RULES)
  have "fst (detect_layers e)
      = (if root_exists e then {l \<in> dom LAYER_RULES. layer_is_dir e l} else {})"
    by (simp add: detect_layers_def detect_loop_fst s)
  then show "layers_present (init_guard e)
     = (if root_exists e then {l \<in> dom LAYER_RULES. layer_is_dir e l} else {})"
    by (simp add: init_guard_def case_prod_beta)
  show "violations (init_guard e) = []" "project_root (init_guard e) = root_parts e"
    "module_path (init_guard e) = fst (get_module_path e)"
    by (simp_all add: init_guard_def case_prod_beta)
qed

lemma init_guard_layers_sub: "layers_present (init_guard e) \<subseteq> dom LAYER_RULES"
  by (auto simp: init_guard_fields)

lemma test_part_frame:
  "project_root g1 = project_root g \<Longrightarrow> test_part e rel g1 = test_part e rel g"
  by (simp add: test_part_def extract_imports_fst)

lemma layer_part_frame:
  assumes "project_root g1 = project_root g" and "module_path g1 = module_path g"
    and "layers_present g1 = layers_present g"
  shows "layer_part e rel g1 = layer_part e rel g"
proof -
  have ir: "import_rule g1 = import_rule g"
    by (intro ext) (rule import_rule_frame [OF assms(3) assms(2)])
  show ?thesis
    unfolding layer_part_def extract_imports_fst assms(1) assms(3) ir by (rule refl)
qed

lemma appended_frame:
  assumes "project_root g1 = project_root g" and "module_path g1 = module_path g"
    and "layers_present g1 = layers_present g"
  shows "appended e rel g1 = appended e rel g"
  by (simp add: appended_eq test_part_frame [OF assms(1)] layer_part_frame [OF assms])

lemma validate_files_violations:
  "\<exists>g1. validate_files e files g = Inr g1
     \<and> violations g1 = violations g @ concat (map (\<lambda>rel. appended e rel g) files)
     \<and> layers_present g1 = layers_present g \<and> module_path g1 = module_path g
     \<and> project_root g1 = project_root g \<and> gomod_config_valid g1 = gomod_config_valid g"
proof (induction files arbitrary: g)
  case Nil
  then show ?case by simp
next
  case (Cons rel files)
  obtain g1 where g1: "validate_file e rel g = Inr g1"
    and v1: "violations g1 = violations g @ test_part e rel g @ layer_part e rel g"
    and f1: "layers_present g1 = layers_present g" "module_path g1 = module_path g"
      "project_root g1 = project_root g" "gomod_config_valid g1 = gomod_config_valid g"
    using validate_file_Inr [of e rel g] by (elim exE conjE)
  from Cons [of g1] obtain g2 where g2: "validate_files e files g1 = Inr g2"
    and v2: "violations g2 = violations g1 @ concat (map (\<lambda>rel. appended e rel g1) files)"
    and f2: "layers_present g2 = layers_present g1" "module_path g2 = module_path g1"
      "project_root g2 = project_root g1" "gomod_config_valid g2 = gomod_config_valid g1"
    by (elim exE conjE)
  have a: "\<And>rel. appended e rel g1 = appended e rel g"
    by (rule appended_frame) (simp_all add: f1)
  have "validate_files e (rel # files) g = Inr g2"
    by (simp add: g1 g2)
  moreover have "violations g2 = violations g @ concat (map (\<lambda>rel. appended e rel g) (rel # files))"
    unfolding v2 v1 a by (simp add: appended_eq [of e rel g])
  ultimately show ?case
    using f1 f2 by (intro exI [of _ g2] conjI) simp_all
qed

lemma collect_go_files_frame:
  "project_root g1 = project_root g \<Longrightarrow> layers_present g1 = layers_present g
   \<Longrightarrow> collect_go_files e g1 = collect_go_files e g"
  by (simp add: collect_go_files_def)

lemma validate_all_result:
  assumes "layers_present g \<subseteq> dom LAYER_RULES" and "layers_present g \<noteq> {}"
  shows "\<exists>g1. validate_all e g
             = Inr ((\<forall>l \<in> layers_present g. manifest_ok e g l)
                    \<and> violations g @ concat (map (\<lambda>rel. appended e rel g) (collect_go_files e g)) = [],
                    g1)
           \<and> gomod_config_valid g1 = (\<forall>l \<in> layers_present g. manifest_ok e g l)
           \<and> violations g1
               = violations g @ concat (map (\<lambda>rel. appended e rel g) (collect_go_files e g))"
proof -
  define ga where "ga = print_line Blank
                    (print_line (Validating_layers (sorted_list_of_set (layers_present g)))
                       (print_line Blank g))"
  define gb where "gb = print_line Rule70 (print_line Step1 (print_line Rule70 ga))"
  have fb: "layers_present gb = layers_present g" "module_path gb = module_path g"
    "project_root gb = project_root g" "violations gb = violations g"
    by (simp_all add: ga_def gb_def print_line_frame)
  have sub: "layers_present gb \<subseteq> dom LAYER_RULES"
    using assms(1) by (simp add: fb)
  from validate_gomod_config_result [OF sub, of e] obtain gc where
    rc: "validate_gomod_config e gb = Inr (\<forall>l \<in> layers_present gb. manifest_ok e gb l, gc)"
    and fc: "layers_present gc = layers_present gb" "module_path gc = module_path gb"
      "project_root gc = project_root gb" "violations gc = violations gb"
    by (elim exE conjE)
  define valid where "valid = (\<forall>l \<in> layers_present g. manifest_ok e g l)"
  have ok: "\<And>l. manifest_ok e gb l = manifest_ok e g l"
    by (rule manifest_ok_frame) (simp add: fb)
  have rc2: "validate_gomod_config e gb = Inr (valid, gc)"
    using rc by (simp add: valid_def ok fb)
  define gd where "gd = print_line Blank (gc\<lparr>gomod_config_valid := valid\<rparr>)"
  define ge where "ge = print_line Rule70 (print_line Step2 (print_line Rule70 gd))"
  define gf where "gf = print_line Blank (print_line (Scanning (length (collect_go_files e ge))) ge)"
  have ff: "layers_present gf = layers_present g" "module_path gf = module_path g"
    "project_root gf = project_root g" "violations gf = violations g"
    "gomod_config_valid gf = valid"
    by (simp_all add: gd_def ge_def gf_def print_line_frame fc fb)
  have fe: "layers_present ge = layers_present g" "project_root ge = project_root g"
    by (simp_all add: gd_def ge_def print_line_frame fc fb)
  have cf: "collect_go_files e ge = collect_go_files e g"
    by (rule collect_go_files_frame) (simp_all add: fe)
  from validate_files_violations [of e "collect_go_files e ge" gf] obtain g1 where
    r1: "validate_files e (collect_go_files e ge) gf = Inr g1"
    and v1: "violations g1 = violations gf
        @ concat (map (\<lambda>rel. appended e rel gf) (collect_go_files e ge))"
    and f1: "gomod_config_valid g1 = gomod_config_valid gf"
    by (elim exE conjE)
  have a: "\<And>rel. appended e rel gf = appended e rel g"
    by (rule appended_frame) (simp_all add: ff)
  have v: "violations g1
      = violations g @ concat (map (\<lambda>rel. appended e rel g) (collect_go_files e g))"
    by (simp add: v1 a cf ff)
  have gv: "gomod_config_valid g1 = valid"
    by (simp add: f1 ff)
  have "validate_all e g = Inr (gomod_config_valid g1 \<and> length (violations g1) = 0, g1)"
    using assms(2) rc2 r1
    by (simp add: validate_all_def Let_def ga_def [symmetric] gb_def [symmetric]
        gd_def [symmetric] ge_def [symmetric] gf_def [symmetric])
  then have "validate_all e g
      = Inr ((\<forall>l \<in> layers_present g. manifest_ok e g l)
             \<and> violations g @ concat (map (\<lambda>rel. appended e rel g) (collect_go_files e g)) = [],
             g1)"
    by (simp add: gv v valid_def)
  with gv v show ?thesis
    by (intro exI [of _ g1] conjI) (simp_all add: valid_def)
qed

text \<open>
  Claim C1, as stated, at a project root that exists and has no layer directory: the
  exit code is 2, not 0.
\<close>

theorem no_layers_exit_code_counterexample:
  "main empty_env
   = Inr (2, [Rule70, Title, Rule70, Project_root ''/srv/app'', Blank, Layer_detection,
              Layer_not_present ''application'', Layer_not_present ''bootstrap'',
              Layer_not_present ''domain'', Layer_not_present ''infrastructure'',
              Layer_not_present ''presentation'', No_layers_exiting])"
proof -
  have "get_module_path empty_env = get_module_path scenario_env"
    by (rule get_module_path_cong) (simp add: empty_env_def)
  then have m: "get_module_path empty_env = (''example.com/app'', [])"
    by (simp add: scenario_module_path)
  show ?thesis
    by (simp add: main_def init_guard_def m detect_layers_def sorted_layer_names_eq Let_def)
      (simp add: empty_env_def scenario_env_def path_str_def slash_def)
qed

lemma main_code:
  "\<exists>out. main e
     = Inr (if \<not> root_exists e \<or> layers_present (init_guard e) = {} then 2
            else if (\<forall>l \<in> layers_present (init_guard e). manifest_ok e (init_guard e) l)
                    \<and> (\<forall>rel \<in> set (collect_go_files e (init_guard e)).
                          appended e rel (init_guard e) = [])
            then 0 else 1, out)"
proof (cases "root_exists e")
  case False
  then show ?thesis
    by (simp add: main_def Let_def)
next
  case True
  define out where "out = [Rule70, Title, Rule70, Project_root (path_str (root_parts e)), Blank]"
  define g where "g = (init_guard e)\<lparr>printed := out @ printed (init_guard e)\<rparr>"
  have f: "layers_present g = layers_present (init_guard e)"
    "project_root g = project_root (init_guard e)" "module_path g = module_path (init_guard e)"
    "violations g = []"
    by (simp_all add: g_def init_guard_fields)
  show ?thesis
  proof (cases "layers_present (init_guard e) = {}")
    case empty: True
    with True show ?thesis
      by (simp add: main_def Let_def)
  next
    case nonempty: False
    have sub: "layers_present g \<subseteq> dom LAYER_RULES"
      by (simp add: f init_guard_layers_sub)
    have ne: "layers_present g \<noteq> {}"
      using nonempty by (simp add: f)
    from validate_all_result [OF sub ne, of e] obtain g1 where
      r: "validate_all e g
             = Inr ((\<forall>l \<in> layers_present g. manifest_ok e g l)
                    \<and> violations g @ concat (map (\<lambda>rel. appended e rel g) (collect_go_files e g)) = [],
                    g1)"
      by (elim exE conjE)
    have ok: "\<And>l. manifest_ok e g l = manifest_ok e (init_guard e) l"
      by (rule manifest_ok_frame) (simp add: f)
    have a: "\<And>rel. appended e rel g = appended e rel (init_guard e)"
      by (rule appended_frame) (simp_all add: f)
    have c: "collect_go_files e g = collect_go_files e (init_guard e)"
      by (rule collect_go_files_frame) (simp_all add: f)
    have r2: "validate_all e g
             = Inr ((\<forall>l \<in> layers_present (init_guard e). manifest_ok e (init_guard e) l)
                    \<and> (\<forall>rel \<in> set (collect_go_files e (init_guard e)).
                          appended e rel (init_guard e) = []), g1)"
      unfolding r by (simp add: ok a c f)
    have "main e
        = Inr (if (\<forall>l \<in> layers_present (init_guard e). manifest_ok e (init_guard e) l)
                    \<and> (\<forall>rel \<in> set (collect_go_files e (init_guard e)).
                          appended e rel (init_guard e) = [])
               then 0 else 1, printed (report_violations g1))"
      using True nonempty r2
      by (simp add: main_def Let_def out_def [symmetric] g_def [symmetric] f)
    with True nonempty show ?thesis
      by simp
  qed
qed

text \<open>
  Claim C1, amended. The exit code is 2 when the project root does not exist or no layer
  directory is present. Otherwise it is 0 when the manifest check passes for every
  present layer and no scanned file gets a violation, and 1 when the manifest
  configuration is invalid for some present layer or at least one violation is
  recorded.
\<close>

theorem main_exit_code:
  "\<exists>out. main e
     = Inr (if \<not> root_exists e \<or> layers_present (init_guard e) = {} then 2
            else if (\<forall>l \<in> layers_present (init_guard e). manifest_ok e (init_guard e) l)
                    \<and> (\<forall>rel \<in> set (collect_go_files e (init_guard e)).
                          appended e rel (init_guard e) = [])
            then 0 else 1, out)"
  by (rule main_code)

lemma scenario_init:
  "layers_present (init_guard scenario_env) = layers_present scenario_guard"
  "project_root (init_guard scenario_env) = project_root scenario_guard"
  "module_path (init_guard scenario_env) = module_path scenario_guard"
  by (simp_all add: init_guard_fields scenario_module_path dom_LAYER_RULES)
    (auto simp: scenario_env_def scenario_guard_def)

lemma scenario_files:
  "collect_go_files scenario_env (init_guard scenario_env)
   = [[''application'', ''service.go''], [''application'', ''service_test.go''],
      [''infrastructure'', ''db.go''], [''presentation'', ''handler.go'']]"
proof -
  have "collect_go_files scenario_env (init_guard scenario_env)
      = collect_go_files scenario_env scenario_guard"
    by (rule collect_go_files_frame) (simp_all add: scenario_init)
  also have "\<dots> = [[''application'', ''service.go''], [''application'', ''service_test.go''],
      [''infrastructure'', ''db.go''], [''presentation'', ''handler.go'']]"
    by (simp add: collect_go_files_def scenario_guard_def scenario_env_def sorted_layer_names_eq)
  finally show ?thesis .
qed

theorem main_exit_code_witness:
  "root_exists scenario_env \<and> layers_present (init_guard scenario_env) \<noteq> {}
   \<and> [''presentation'', ''handler.go'']
       \<in> set (collect_go_files scenario_env (init_guard scenario_env))
   \<and> appended scenario_env [''presentation'', ''handler.go''] (init_guard scenario_env) \<noteq> []
   \<and> (\<exists>out. main scenario_env = Inr (1, out))"
proof -
  have 1: "root_exists scenario_env"
    by (simp add: scenario_env_def)
  have 2: "layers_present (init_guard scenario_env) \<noteq> {}"
    by (simp add: scenario_init scenario_guard_def)
  have 3: "[''presentation'', ''handler.go'']
       \<in> set (collect_go_files scenario_env (init_guard scenario_env))"
    by (simp add: scenario_files)
  have "appended scenario_env [''presentation'', ''handler.go''] (init_guard scenario_env)
      = appended scenario_env [''presentation'', ''handler.go''] scenario_guard"
    by (rule appended_frame) (simp_all add: scenario_init)
  moreover have "filter (\<lambda>v. line_number v = 2)
      (appended scenario_env [''presentation'', ''handler.go''] scenario_guard) \<noteq> []"
    using appended_at_line [of 2 "''example.com/app/domain/entity''" scenario_env
        "[''presentation'', ''handler.go'']" scenario_guard "''presentation''" "{''application''}"]
    by (simp add: scenario_imports get_file_layer_def dom_LAYER_RULES)
      (simp add: scenario_guard_def LAYER_RULES_def import_rule_def get_layer_from_import_def
        slash_def dom_LAYER_RULES FORBIDDEN_DEPENDENCY_def)
  ultimately have 4: "appended scenario_env [''presentation'', ''handler.go'']
      (init_guard scenario_env) \<noteq> []"
    by auto
  from 3 4 have "\<not> (\<forall>rel \<in> set (collect_go_files scenario_env (init_guard scenario_env)).
      appended scenario_env rel (init_guard scenario_env) = [])"
    by blast
  with main_exit_code [of scenario_env] 1 2 have "\<exists>out. main scenario_env = Inr (1, out)"
    by simp
  with 1 2 3 4 show ?thesis
    by (intro conjI)
qed














lemma manifest_ok_env_cong:
  "layer_gomod e2 = layer_gomod e1 \<Longrightarrow> manifest_ok e2 g l = manifest_ok e1 g l"
  by (simp add: manifest_ok_def)

lemma scenario_manifests_ok:
  "\<forall>l \<in> layers_present scenario_guard. manifest_ok scenario_env scenario_guard l"
proof
  fix l
  show "manifest_ok scenario_env scenario_guard l"
  proof (cases "l = ''application''")
    case True
    have "allowed_dependencies ''application'' = {''domain''}"
      by (simp add: allowed_dependencies_def LAYER_RULES_def)
    moreover have "layer_gomod scenario_env ''application'' \<noteq> Some Unreadable"
      by (simp add: scenario_env_def)
    ultimately show ?thesis
      by (simp add: True manifest_ok_iff scenario_declared)
  next
    case False
    then have "layer_gomod scenario_env l = None"
      by (simp add: scenario_env_def)
    then show ?thesis
      by (simp add: manifest_ok_def)
  qed
qed

lemma scenario_guard_layers:
  "layers_present scenario_guard \<subseteq> dom LAYER_RULES" "layers_present scenario_guard \<noteq> {}"
  by (simp_all add: scenario_guard_def dom_LAYER_RULES)






lemma appended_lines_cong:
  assumes "lines_read (read_text e1 rel) = lines_read (read_text e2 rel)"
  shows "appended e1 rel g = appended e2 rel g"
  unfolding appended_eq test_part_def layer_part_def extract_imports_fst assms
  by (rule refl)

lemma extract_imports_printed:
  "printed (snd (extract_imports e rel g))
   = printed g @ (if read_failed (read_text e rel)
                  then [Warning_could_not_read (path_str (project_root g @ rel))] else [])"
  by (simp add: extract_imports_def Let_def print_line_def)

lemma validate_no_test_imports_printed:
  "printed (validate_no_test_imports e rel g)
   = printed g @ (if \<not> endswith (path_name (project_root g @ rel)) ''_test.go''
                     \<and> read_failed (read_text e rel)
                  then [Warning_could_not_read (path_str (project_root g @ rel))] else [])"
  by (simp add: validate_no_test_imports_unfold test_import_loop_frame extract_imports_printed)

lemma validate_file_printed:
  "\<exists>g1. validate_file e rel g = Inr g1
     \<and> printed g1
         = printed g
           @ (if \<not> endswith (path_name (project_root g @ rel)) ''_test.go''
                 \<and> read_failed (read_text e rel)
              then [Warning_could_not_read (path_str (project_root g @ rel))] else [])
           @ (if (\<exists>L. get_file_layer rel = Some L \<and> L \<in> layers_present g)
                 \<and> read_failed (read_text e rel)
              then [Warning_could_not_read (path_str (project_root g @ rel))] else [])"
proof (cases "get_file_layer rel")
  case None
  then show ?thesis
    by (simp add: validate_file_unfold validate_no_test_imports_printed)
next
  case (Some L)
  show ?thesis
  proof (cases "L \<in> layers_present g")
    case False
    with Some show ?thesis
      by (simp add: validate_file_unfold validate_no_test_imports_printed)
  next
    case True
    from Some obtain al where al: "LAYER_RULES L = Some al"
      using get_file_layer_key by blast
    have pr: "project_root (validate_no_test_imports e rel g) = project_root g"
      by (simp add: validate_no_test_imports_frame)
    show ?thesis
      using Some True al
      by (simp add: validate_file_unfold import_loop_frame extract_imports_printed
          validate_no_test_imports_printed pr)
  qed
qed

text \<open>
  Claim C6, amended. When the read of a file fails, the extractor prints the warning and
  returns the records of the lines that were read before the failure. The file is
  validated exactly as a file that consists of those lines: it gets the violations of
  their records, none when no line was read, as when the file cannot be opened.
  \<open>validate_file\<close> prints the warning once for each of its two passes that reads the
  file, and the scan goes on: the files before and after the unreadable one are
  validated, and their violations recorded, as in any other run.
\<close>

theorem read_failure_recovered:
  assumes "read_failed (read_text e rel)"
  shows "extract_imports e rel g
           = (extract_lines False 1 (lines_read (read_text e rel)),
              print_line (Warning_could_not_read (path_str (project_root g @ rel))) g)
         \<and> appended e rel g
             = appended
                 (e\<lparr>read_text := (read_text e)
                       (rel := \<lparr>lines_read = lines_read (read_text e rel), read_failed = False\<rparr>)\<rparr>)
                 rel g
         \<and> (lines_read (read_text e rel) = [] \<longrightarrow> appended e rel g = [])
         \<and> (\<exists>g1. validate_file e rel g = Inr g1
               \<and> printed g1
                   = printed g
                     @ (if endswith (path_name (project_root g @ rel)) ''_test.go'' then []
                        else [Warning_could_not_read (path_str (project_root g @ rel))])
                     @ (if \<exists>L. get_file_layer rel = Some L \<and> L \<in> layers_present g
                        then [Warning_could_not_read (path_str (project_root g @ rel))]
                        else []))
         \<and> (\<forall>before after.
               \<exists>g2. validate_files e (before @ rel # after) g = Inr g2
                 \<and> violations g2
                     = violations g @ concat (map (\<lambda>r. appended e r g) before)
                       @ appended e rel g @ concat (map (\<lambda>r. appended e r g) after))"
proof -
  have a: "extract_imports e rel g
           = (extract_lines False 1 (lines_read (read_text e rel)),
              print_line (Warning_could_not_read (path_str (project_root g @ rel))) g)"
    using assms by (simp add: extract_imports_def Let_def)
  have b: "appended e rel g
             = appended
                 (e\<lparr>read_text := (read_text e)
                       (rel := \<lparr>lines_read = lines_read (read_text e rel), read_failed = False\<rparr>)\<rparr>)
                 rel g"
    by (rule appended_lines_cong) simp
  have c: "lines_read (read_text e rel) = [] \<longrightarrow> appended e rel g = []"
    by (simp add: appended_eq test_part_def layer_part_def extract_imports_fst
        split: option.splits)
  have d: "\<exists>g1. validate_file e rel g = Inr g1
               \<and> printed g1
                   = printed g
                     @ (if endswith (path_name (project_root g @ rel)) ''_test.go'' then []
                        else [Warning_could_not_read (path_str (project_root g @ rel))])
                     @ (if \<exists>L. get_file_layer rel = Some L \<and> L \<in> layers_present g
                        then [Warning_could_not_read (path_str (project_root g @ rel))]
                        else [])"
    using validate_file_printed [of e rel g] assms by auto
  have f: "\<forall>before after.
               \<exists>g2. validate_files e (before @ rel # after) g = Inr g2
                 \<and> violations g2
                     = violations g @ concat (map (\<lambda>r. appended e r g) before)
                       @ appended e rel g @ concat (map (\<lambda>r. appended e r g) after)"
  proof (intro allI)
    fix before after
    from validate_files_violations [of e "before @ rel # after" g] obtain g2 where
      "validate_files e (before @ rel # after) g = Inr g2"
      "violations g2
         = violations g @ concat (map (\<lambda>r. appended e r g) (before @ rel # after))"
      by (elim exE conjE)
    then show "\<exists>g2. validate_files e (before @ rel # after) g = Inr g2
                 \<and> violations g2
                     = violations g @ concat (map (\<lambda>r. appended e r g) before)
                       @ appended e rel g @ concat (map (\<lambda>r. appended e r g) after)"
      by (intro exI [of _ g2]) simp
  qed
  from a b c d f show ?thesis by (intro conjI)
qed

lemma truncated_big:
  "read_text truncated_env [''domain'', ''big.go'']
   = \<lparr>lines_read = [''package big'', ''import \"testing\"''], read_failed = True\<rparr>"
  by (simp add: truncated_env_def)

lemma truncated_handler:
  "read_text truncated_env [''presentation'', ''handler.go'']
   = read_text scenario_env [''presentation'', ''handler.go'']"
  by (simp add: truncated_env_def)

lemma scenario_handler_appended:
  "appended scenario_env [''presentation'', ''handler.go''] scenario_guard
   = [\<lparr>file_path = ''/srv/app/presentation/handler.go'', line_number = 2,
       violation_type = ''PRESENTATION_IMPORTS_DOMAIN'',
       details = ''Presentation MUST NOT import Domain directly (import: example.com/app/domain/entity)''
         @ remediation_hint\<rparr>]"
proof -
  have n: "\<not> endswith (path_name (project_root scenario_guard @ [''presentation'', ''handler.go'']))
      ''_test.go''"
    by (simp add: endswith_def path_name_def scenario_guard_def suffix_def)
  have c: "get_layer_from_import scenario_guard ''example.com/app/domain/entity'' = Some ''domain''"
    by (simp add: get_layer_from_import_def scenario_guard_def slash_def dom_LAYER_RULES)
  have lp: "''presentation'' \<in> layers_present scenario_guard"
    "''domain'' \<in> layers_present scenario_guard"
    by (simp_all add: scenario_guard_def)
  have p: "path_str (project_root scenario_guard @ [''presentation'', ''handler.go''])
      = ''/srv/app/presentation/handler.go''"
    by (simp add: scenario_guard_def path_str_def slash_def)
  show ?thesis
    by (simp add: appended_eq test_part_def layer_part_def scenario_imports n
        test_import_rule_def get_file_layer_def dom_LAYER_RULES lp p)
      (simp add: import_rule_def c lp FORBIDDEN_DEPENDENCY_def)
qed

theorem read_failure_recovered_witness:
  "read_failed (read_text truncated_env [''domain'', ''big.go''])
   \<and> fst (extract_imports truncated_env [''domain'', ''big.go''] scenario_guard)
       = [(2, ''testing'')]
   \<and> (\<exists>g1. validate_file truncated_env [''domain'', ''big.go''] scenario_guard = Inr g1
         \<and> printed g1 = [Warning_could_not_read ''/srv/app/domain/big.go'',
                          Warning_could_not_read ''/srv/app/domain/big.go''])
   \<and> (\<exists>g2. validate_files truncated_env
               [[''domain'', ''big.go''], [''presentation'', ''handler.go'']] scenario_guard
             = Inr g2
         \<and> map violation_type (violations g2)
             = [''TEST_CODE_IN_PRODUCTION'', ''PRESENTATION_IMPORTS_DOMAIN''])"
proof -
  have 1: "read_failed (read_text truncated_env [''domain'', ''big.go''])"
    by (simp add: truncated_big)
  note t = read_failure_recovered [OF 1, of scenario_guard]
  have i: "fst (extract_imports truncated_env [''domain'', ''big.go''] scenario_guard)
      = [(2, ''testing'')]"
    using t [THEN conjunct1] by (simp add: truncated_big extract_eval)
  have w: "\<exists>g1. validate_file truncated_env [''domain'', ''big.go''] scenario_guard = Inr g1
         \<and> printed g1 = [Warning_could_not_read ''/srv/app/domain/big.go'',
                          Warning_could_not_read ''/srv/app/domain/big.go'']"
    using t [THEN conjunct2, THEN conjunct2, THEN conjunct2, THEN conjunct1]
    by (simp add: get_file_layer_def dom_LAYER_RULES)
      (simp add: scenario_guard_def endswith_def path_name_def suffix_def path_str_def slash_def)
  have b: "map violation_type (appended truncated_env [''domain'', ''big.go''] scenario_guard)
      = [''TEST_CODE_IN_PRODUCTION'']"
  proof -
    have n: "\<not> endswith (path_name (project_root scenario_guard @ [''domain'', ''big.go'']))
        ''_test.go''"
      by (simp add: endswith_def path_name_def scenario_guard_def suffix_def)
    have l: "layer_part truncated_env [''domain'', ''big.go''] scenario_guard = []"
      by (simp add: layer_part_def i get_file_layer_def dom_LAYER_RULES import_rule_def
          get_layer_from_import_not_testing)
    show ?thesis
      by (simp add: appended_eq l) (simp add: test_part_def i n test_import_rule_def)
  qed
  have h: "appended truncated_env [''presentation'', ''handler.go''] scenario_guard
      = appended scenario_env [''presentation'', ''handler.go''] scenario_guard"
    by (rule appended_lines_cong) (simp add: truncated_handler)
  have v: "\<exists>g2. validate_files truncated_env
               [[''domain'', ''big.go''], [''presentation'', ''handler.go'']] scenario_guard
             = Inr g2
         \<and> map violation_type (violations g2)
             = [''TEST_CODE_IN_PRODUCTION'', ''PRESENTATION_IMPORTS_DOMAIN'']"
  proof -
    from t [THEN conjunct2, THEN conjunct2, THEN conjunct2, THEN conjunct2, rule_format,
        of "[]" "[[''presentation'', ''handler.go'']]"]
    obtain g2 where r: "validate_files truncated_env
               [[''domain'', ''big.go''], [''presentation'', ''handler.go'']] scenario_guard
             = Inr g2"
      and vs: "violations g2 = violations scenario_guard
          @ appended truncated_env [''domain'', ''big.go''] scenario_guard
          @ appended truncated_env [''presentation'', ''handler.go''] scenario_guard"
      by (elim exE conjE) simp
    have "violations scenario_guard = []"
      by (simp add: scenario_guard_def)
    with vs b have "map violation_type (violations g2)
             = [''TEST_CODE_IN_PRODUCTION'', ''PRESENTATION_IMPORTS_DOMAIN'']"
      by (simp add: h scenario_handler_appended)
    with r show ?thesis by (intro exI [of _ g2] conjI)
  qed
  from 1 i w v show ?thesis by (intro conjI)
qed




text \<open>
  Claim C7, at a production file \<open>application/helper.go\<close> that imports \<open>testing\<close> with
  a period in the place of the alias, with a comment after the path, and in a block with
  a comment after the path: the file is scanned, the extractor returns no record for
  it, no violation is recorded and the run ends with the exit code 0.
\<close>

theorem testing_import_unreported:
  "collect_go_files dot_testing_env (init_guard dot_testing_env) = [[''application'', ''helper.go'']]
   \<and> \<not> endswith (path_name (project_root (init_guard dot_testing_env)
                               @ [''application'', ''helper.go''])) ''_test.go''
   \<and> fst (extract_imports dot_testing_env [''application'', ''helper.go'']
             (init_guard dot_testing_env)) = []
   \<and> appended dot_testing_env [''application'', ''helper.go''] (init_guard dot_testing_env) = []
   \<and> map_sum id fst (main dot_testing_env) = Inr 0"
proof -
  have mp: "get_module_path dot_testing_env = (''example.com/app'', [])"
    using get_module_path_cong [of dot_testing_env scenario_env]
    by (simp add: dot_testing_env_def scenario_module_path)
  have ig: "layers_present (init_guard dot_testing_env) = layers_present scenario_guard"
    "project_root (init_guard dot_testing_env) = project_root scenario_guard"
    "module_path (init_guard dot_testing_env) = module_path scenario_guard"
    by (simp_all add: init_guard_fields mp dom_LAYER_RULES)
      (auto simp: dot_testing_env_def scenario_env_def scenario_guard_def)
  have re: "root_exists dot_testing_env"
    by (simp add: dot_testing_env_def scenario_env_def)
  have cf: "collect_go_files dot_testing_env (init_guard dot_testing_env)
      = [[''application'', ''helper.go'']]"
  proof -
    have "collect_go_files dot_testing_env (init_guard dot_testing_env)
        = collect_go_files dot_testing_env scenario_guard"
      by (rule collect_go_files_frame) (simp_all add: ig)
    also have "\<dots> = [[''application'', ''helper.go'']]"
      by (simp add: collect_go_files_def dot_testing_env_def scenario_env_def scenario_guard_def
          sorted_layer_names_eq)
    finally show ?thesis .
  qed
  have n: "\<not> endswith (path_name (project_root (init_guard dot_testing_env)
                               @ [''application'', ''helper.go''])) ''_test.go''"
    by (simp add: ig) (simp add: endswith_def path_name_def scenario_guard_def suffix_def)
  have i: "fst (extract_imports dot_testing_env [''application'', ''helper.go'']
             (init_guard dot_testing_env)) = []"
    by (simp add: extract_imports_fst) (simp add: dot_testing_env_def extract_eval)
  have a: "appended dot_testing_env [''application'', ''helper.go''] (init_guard dot_testing_env) = []"
    by (simp add: appended_eq test_part_def layer_part_def i split: option.splits)
  have ok: "\<forall>l \<in> layers_present (init_guard dot_testing_env).
      manifest_ok dot_testing_env (init_guard dot_testing_env) l"
  proof
    fix l assume "l \<in> layers_present (init_guard dot_testing_env)"
    then have l: "l \<in> layers_present scenario_guard"
      by (simp add: ig)
    have "manifest_ok dot_testing_env (init_guard dot_testing_env) l
        = manifest_ok dot_testing_env scenario_guard l"
      by (rule manifest_ok_frame) (simp add: ig)
    also have "\<dots> = manifest_ok scenario_env scenario_guard l"
      by (rule manifest_ok_env_cong) (simp add: dot_testing_env_def)
    finally show "manifest_ok dot_testing_env (init_guard dot_testing_env) l"
      using scenario_manifests_ok l by simp
  qed
  have ne: "layers_present (init_guard dot_testing_env) \<noteq> {}"
    by (simp add: ig scenario_guard_layers)
  from main_code [of dot_testing_env] obtain out where
    "main dot_testing_env = Inr (0, out)"
    using re ne ok by (auto simp: cf a)
  then have "map_sum id fst (main dot_testing_env) = Inr 0"
    by simp
  with cf n i a show ?thesis
    by (intro conjI)
qed

end
